theory Spec2Isabelle
  imports Complex_Main "HOL-Library.AList" "HOL-Library.Product_Lexorder"
    "HOL-Library.Monad_Syntax"
begin

section \<open>Data model (core/schema.ts)\<close>

text \<open>
  The three entity kinds share one attribute set; a Task adds \<open>subtasks\<close>, an Epic adds
  \<open>tasks\<close>. Optional properties of the TypeScript objects are \<open>option\<close> values, with
  \<open>None\<close> for an absent (undefined) property. The field \<open>id\<close> is called \<open>item_id\<close>, since
  \<open>id\<close> is the identity function of HOL, and \<open>notes\<close> is \<open>item_notes\<close>. The fields \<open>deps\<close> and
  \<open>implementation_description\<close> and the top-level \<open>tasks\<close> array are read and written by
  core/operations.ts, core/queries.ts and core/validation.ts, so the run-time objects
  carry them.
\<close>

datatype Status = Pending | InProgress | Completed | Blocked

record Item =
  item_id :: string
  content :: string
  priority :: int
  status :: Status
  created_at :: string
  updated_at :: "string option"
  completed_at :: "string option"
  implementation_description :: "string option"
  item_notes :: "string list option"
  deps :: "string list option"

type_synonym Subtask = Item

record Task = Item +
  subtasks :: "Subtask list"

record Epic = Item +
  tasks :: "Task list"

text \<open>The top-level \<open>tasks\<close> property of State is \<open>state_tasks\<close> here (the name \<open>tasks\<close> is
  the Epic's field); the code reads it as \<open>state.tasks ?? []\<close>.\<close>

record State =
  version :: int
  epics :: "Epic list"
  state_tasks :: "Task list option"

definition standaloneTasks :: "State \<Rightarrow> Task list" where
  "standaloneTasks state = (case state_tasks state of None \<Rightarrow> [] | Some ts \<Rightarrow> ts)"

record UpdateItemInput =
  in_content :: "string option"
  in_priority :: "int option"
  in_status :: "Status option"
  in_implementation_description :: "string option"
  in_notes :: "string list option"
  in_deps :: "string list option"

datatype 'a OperationResult = Success 'a | Failure string

section \<open>Operations (core/operations.ts)\<close>

subsection \<open>Lookups\<close>

text \<open>\<open>Array.prototype.findIndex\<close>: the index of the first match, \<open>None\<close> for \<open>-1\<close>.\<close>

fun findIndex :: "('a \<Rightarrow> bool) \<Rightarrow> 'a list \<Rightarrow> nat option" where
  "findIndex P [] = None"
| "findIndex P (x # xs) = (if P x then Some 0 else map_option Suc (findIndex P xs))"

record EpicLookup =
  lk_epic :: Epic
  lk_index :: nat

record TaskLookup =
  tl_epic :: Epic
  tl_epicIndex :: nat
  tl_task :: Task
  tl_taskIndex :: nat

record SubtaskLookup = TaskLookup +
  sl_subtask :: Subtask
  sl_subtaskIndex :: nat

record StandaloneTaskLookup =
  sa_task :: Task
  sa_index :: nat

definition findEpic :: "State \<Rightarrow> string \<Rightarrow> EpicLookup option" where
  "findEpic state epicId =
     (case findIndex (\<lambda>e. item_id e = epicId) (epics state) of
        None \<Rightarrow> None
      | Some index \<Rightarrow> Some \<lparr>lk_epic = epics state ! index, lk_index = index\<rparr>)"

definition findTask :: "State \<Rightarrow> string \<Rightarrow> string \<Rightarrow> TaskLookup option" where
  "findTask state epicId taskId =
     (case findEpic state epicId of
        None \<Rightarrow> None
      | Some epicLookup \<Rightarrow>
          (case findIndex (\<lambda>t. item_id t = taskId) (tasks (lk_epic epicLookup)) of
             None \<Rightarrow> None
           | Some taskIndex \<Rightarrow>
               Some \<lparr>tl_epic = lk_epic epicLookup, tl_epicIndex = lk_index epicLookup,
                     tl_task = tasks (lk_epic epicLookup) ! taskIndex,
                     tl_taskIndex = taskIndex\<rparr>))"

definition findSubtask :: "State \<Rightarrow> string \<Rightarrow> string \<Rightarrow> string \<Rightarrow> SubtaskLookup option" where
  "findSubtask state epicId taskId subtaskId =
     (case findTask state epicId taskId of
        None \<Rightarrow> None
      | Some taskLookup \<Rightarrow>
          (case findIndex (\<lambda>s. item_id s = subtaskId) (subtasks (tl_task taskLookup)) of
             None \<Rightarrow> None
           | Some subtaskIndex \<Rightarrow>
               Some \<lparr>tl_epic = tl_epic taskLookup, tl_epicIndex = tl_epicIndex taskLookup,
                     tl_task = tl_task taskLookup, tl_taskIndex = tl_taskIndex taskLookup,
                     sl_subtask = subtasks (tl_task taskLookup) ! subtaskIndex,
                     sl_subtaskIndex = subtaskIndex\<rparr>))"

definition findStandaloneTask :: "State \<Rightarrow> string \<Rightarrow> StandaloneTaskLookup option" where
  "findStandaloneTask state taskId =
     (case findIndex (\<lambda>t. item_id t = taskId) (standaloneTasks state) of
        None \<Rightarrow> None
      | Some index \<Rightarrow> Some \<lparr>sa_task = standaloneTasks state ! index, sa_index = index\<rparr>)"

subsection \<open>Immutable updates\<close>

text \<open>Every index written below comes from a lookup on the same array, so the
  assignment \<open>arr[index] = v\<close> on the copied array is a \<open>list_update\<close> within range.\<close>

definition updateStandaloneTaskInState :: "State \<Rightarrow> nat \<Rightarrow> Task \<Rightarrow> State" where
  "updateStandaloneTaskInState state index task =
     state\<lparr>state_tasks := Some ((standaloneTasks state)[index := task])\<rparr>"

definition updateEpicInState :: "State \<Rightarrow> nat \<Rightarrow> Epic \<Rightarrow> State" where
  "updateEpicInState state index epic = state\<lparr>epics := (epics state)[index := epic]\<rparr>"

definition updateTaskInEpic :: "Epic \<Rightarrow> nat \<Rightarrow> Task \<Rightarrow> string \<Rightarrow> Epic" where
  "updateTaskInEpic epic taskIndex task now =
     epic\<lparr>tasks := (tasks epic)[taskIndex := task], updated_at := Some now\<rparr>"

definition updateSubtaskInTask :: "Task \<Rightarrow> nat \<Rightarrow> Subtask \<Rightarrow> string \<Rightarrow> Task" where
  "updateSubtaskInTask task subtaskIndex subtask now =
     task\<lparr>subtasks := (subtasks task)[subtaskIndex := subtask], updated_at := Some now\<rparr>"

subsection \<open>Add operations\<close>

text \<open>\<open>generateId()\<close> and \<open>timestamp()\<close> are the external generators; the id and the
  timestamp they return are the arguments \<open>newId\<close> and \<open>now\<close>. The new item's status is
  \<open>pending\<close>, and \<open>notes\<close> and \<open>deps\<close> are taken from the input as they are.\<close>

record CreateEpicInput =
  ce_content :: string
  ce_priority :: int
  ce_notes :: "string list option"
  ce_deps :: "string list option"

record CreateTaskInput =
  ct_content :: string
  ct_priority :: int
  ct_epicId :: "string option"
  ct_notes :: "string list option"
  ct_deps :: "string list option"

record CreateSubtaskInput =
  cs_content :: string
  cs_priority :: int
  cs_epicId :: string
  cs_taskId :: string
  cs_notes :: "string list option"
  cs_deps :: "string list option"

record AddStandaloneSubtaskInput =
  ass_content :: string
  ass_priority :: int
  ass_taskId :: string
  ass_notes :: "string list option"
  ass_deps :: "string list option"

definition addEpic ::
  "State \<Rightarrow> CreateEpicInput \<Rightarrow> string \<Rightarrow> string \<Rightarrow> (State \<times> Epic) OperationResult" where
  "addEpic state input newId now =
     (let epic = \<lparr>item_id = newId, content = ce_content input, priority = ce_priority input,
                  status = Pending, created_at = now, updated_at = None, completed_at = None,
                  implementation_description = None, item_notes = ce_notes input,
                  deps = ce_deps input, tasks = []\<rparr>
      in Success (state\<lparr>epics := epics state @ [epic]\<rparr>, epic))"

text \<open>\<open>!input.epicId\<close> holds for an absent and for an empty \<open>epicId\<close>.\<close>

definition addTask ::
  "State \<Rightarrow> CreateTaskInput \<Rightarrow> string \<Rightarrow> string \<Rightarrow> (State \<times> Task) OperationResult" where
  "addTask state input newId now =
     (let task = \<lparr>item_id = newId, content = ct_content input, priority = ct_priority input,
                  status = Pending, created_at = now, updated_at = None, completed_at = None,
                  implementation_description = None, item_notes = ct_notes input,
                  deps = ct_deps input, subtasks = []\<rparr>
      in case ct_epicId input of
           None \<Rightarrow> Success (state\<lparr>state_tasks := Some (standaloneTasks state @ [task])\<rparr>, task)
         | Some epicId \<Rightarrow>
             if epicId = [] then
               Success (state\<lparr>state_tasks := Some (standaloneTasks state @ [task])\<rparr>, task)
             else
               (case findEpic state epicId of
                  None \<Rightarrow> Failure (''Epic not found: '' @ epicId)
                | Some lookup \<Rightarrow>
                    (let updatedEpic = (lk_epic lookup)\<lparr>tasks := tasks (lk_epic lookup) @ [task],
                                                          updated_at := Some now\<rparr>
                     in Success (updateEpicInState state (lk_index lookup) updatedEpic, task))))"

definition addSubtask ::
  "State \<Rightarrow> CreateSubtaskInput \<Rightarrow> string \<Rightarrow> string \<Rightarrow> (State \<times> Subtask) OperationResult" where
  "addSubtask state input newId now =
     (case findTask state (cs_epicId input) (cs_taskId input) of
        None \<Rightarrow> Failure (''Task not found: '' @ cs_taskId input)
      | Some lookup \<Rightarrow>
          (let subtask = \<lparr>item_id = newId, content = cs_content input,
                          priority = cs_priority input, status = Pending, created_at = now,
                          updated_at = None, completed_at = None,
                          implementation_description = None, item_notes = cs_notes input,
                          deps = cs_deps input\<rparr>;
               updatedTask = (tl_task lookup)\<lparr>subtasks := subtasks (tl_task lookup) @ [subtask],
                                                updated_at := Some now\<rparr>;
               updatedEpic = updateTaskInEpic (tl_epic lookup) (tl_taskIndex lookup) updatedTask now
           in Success (updateEpicInState state (tl_epicIndex lookup) updatedEpic, subtask)))"

definition addStandaloneSubtask ::
  "State \<Rightarrow> AddStandaloneSubtaskInput \<Rightarrow> string \<Rightarrow> string
     \<Rightarrow> (State \<times> Subtask) OperationResult" where
  "addStandaloneSubtask state input newId now =
     (case findStandaloneTask state (ass_taskId input) of
        None \<Rightarrow> Failure (''Standalone task not found: '' @ ass_taskId input)
      | Some lookup \<Rightarrow>
          (let subtask = \<lparr>item_id = newId, content = ass_content input,
                          priority = ass_priority input, status = Pending, created_at = now,
                          updated_at = None, completed_at = None,
                          implementation_description = None, item_notes = ass_notes input,
                          deps = ass_deps input\<rparr>;
               updatedTask = (sa_task lookup)\<lparr>subtasks := subtasks (sa_task lookup) @ [subtask],
                                                updated_at := Some now\<rparr>
           in Success (updateStandaloneTaskInState state (sa_index lookup) updatedTask, subtask)))"

subsection \<open>Update operations\<close>

text \<open>The value of each \<open>timestamp()\<close> call is the argument \<open>now\<close> of the function that
  makes the call. The object spread of \<open>applyUpdate\<close> is applied in the source's order.\<close>

definition applyUpdate :: "'a Item_scheme \<Rightarrow> UpdateItemInput \<Rightarrow> string \<Rightarrow> 'a Item_scheme" where
  "applyUpdate item input now =
     (let i1 = (case in_content input of None \<Rightarrow> item | Some c \<Rightarrow> item\<lparr>content := c\<rparr>);
          i2 = (case in_priority input of None \<Rightarrow> i1 | Some p \<Rightarrow> i1\<lparr>priority := p\<rparr>);
          i3 = (case in_status input of None \<Rightarrow> i2 | Some s \<Rightarrow> i2\<lparr>status := s\<rparr>);
          i4 = (case in_implementation_description input of
                  None \<Rightarrow> i3 | Some d \<Rightarrow> i3\<lparr>implementation_description := Some d\<rparr>);
          i5 = (case in_notes input of None \<Rightarrow> i4 | Some n \<Rightarrow> i4\<lparr>item_notes := Some n\<rparr>);
          i6 = (case in_deps input of None \<Rightarrow> i5 | Some d \<Rightarrow> i5\<lparr>deps := Some d\<rparr>);
          i7 = i6\<lparr>updated_at := Some now\<rparr>
      in if in_status input = Some Completed then i7\<lparr>completed_at := Some now\<rparr> else i7)"

definition updateEpic :: "State \<Rightarrow> string \<Rightarrow> UpdateItemInput \<Rightarrow> string \<Rightarrow> State OperationResult" where
  "updateEpic state epicId input now =
     (case findEpic state epicId of
        None \<Rightarrow> Failure (''Epic not found: '' @ epicId)
      | Some lookup \<Rightarrow>
          Success (updateEpicInState state (lk_index lookup)
                     (applyUpdate (lk_epic lookup) input now)))"

definition updateTask ::
  "State \<Rightarrow> string \<Rightarrow> string \<Rightarrow> UpdateItemInput \<Rightarrow> string \<Rightarrow> State OperationResult" where
  "updateTask state epicId taskId input now =
     (case findTask state epicId taskId of
        None \<Rightarrow> Failure (''Task not found: '' @ taskId)
      | Some lookup \<Rightarrow>
          (let updatedTask = applyUpdate (tl_task lookup) input now;
               updatedEpic = updateTaskInEpic (tl_epic lookup) (tl_taskIndex lookup) updatedTask now
           in Success (updateEpicInState state (tl_epicIndex lookup) updatedEpic)))"

definition updateSubtask ::
  "State \<Rightarrow> string \<Rightarrow> string \<Rightarrow> string \<Rightarrow> UpdateItemInput \<Rightarrow> string \<Rightarrow> State OperationResult" where
  "updateSubtask state epicId taskId subtaskId input now =
     (case findSubtask state epicId taskId subtaskId of
        None \<Rightarrow> Failure (''Subtask not found: '' @ subtaskId)
      | Some lookup \<Rightarrow>
          (let updatedSubtask = applyUpdate (sl_subtask lookup) input now;
               updatedTask = updateSubtaskInTask (tl_task lookup) (sl_subtaskIndex lookup)
                               updatedSubtask now;
               updatedEpic = updateTaskInEpic (tl_epic lookup) (tl_taskIndex lookup) updatedTask now
           in Success (updateEpicInState state (tl_epicIndex lookup) updatedEpic)))"

definition updateStandaloneTask ::
  "State \<Rightarrow> string \<Rightarrow> UpdateItemInput \<Rightarrow> string \<Rightarrow> State OperationResult" where
  "updateStandaloneTask state taskId input now =
     (case findStandaloneTask state taskId of
        None \<Rightarrow> Failure (''Standalone task not found: '' @ taskId)
      | Some lookup \<Rightarrow>
          Success (updateStandaloneTaskInState state (sa_index lookup)
                     (applyUpdate (sa_task lookup) input now)))"

definition updateStandaloneSubtask ::
  "State \<Rightarrow> string \<Rightarrow> string \<Rightarrow> UpdateItemInput \<Rightarrow> string \<Rightarrow> State OperationResult" where
  "updateStandaloneSubtask state taskId subtaskId input now =
     (case findStandaloneTask state taskId of
        None \<Rightarrow> Failure (''Standalone task not found: '' @ taskId)
      | Some lookup \<Rightarrow>
          (case findIndex (\<lambda>s. item_id s = subtaskId) (subtasks (sa_task lookup)) of
             None \<Rightarrow> Failure (''Subtask not found: '' @ subtaskId)
           | Some subtaskIndex \<Rightarrow>
               (let updatedSubtask =
                      applyUpdate (subtasks (sa_task lookup) ! subtaskIndex) input now;
                    updatedSubtasks = (subtasks (sa_task lookup))[subtaskIndex := updatedSubtask];
                    updatedTask = (sa_task lookup)\<lparr>subtasks := updatedSubtasks,
                                                   updated_at := Some now\<rparr>
                in Success (updateStandaloneTaskInState state (sa_index lookup) updatedTask))))"

subsection \<open>Mark complete\<close>

text \<open>\<open>markComplete\<close> may call \<open>timestamp()\<close> up to three times (once per level of the
  cascade). A clock \<open>clk\<close> gives the value of the k-th call made from the current point
  on: \<open>clk 0\<close> is the next value, and a callee that runs after one call receives the
  shifted clock.\<close>

type_synonym clock = "nat \<Rightarrow> string"

definition completedInput :: UpdateItemInput where
  "completedInput =
     \<lparr>in_content = None, in_priority = None, in_status = Some Completed,
      in_implementation_description = None, in_notes = None, in_deps = None\<rparr>"

definition markEpicComplete :: "State \<Rightarrow> string \<Rightarrow> clock \<Rightarrow> State OperationResult" where
  "markEpicComplete state epicId clk = updateEpic state epicId completedInput (clk 0)"

definition maybeCompleteEpic :: "State \<Rightarrow> string \<Rightarrow> clock \<Rightarrow> State OperationResult" where
  "maybeCompleteEpic state epicId clk =
     (case find (\<lambda>e. item_id e = epicId) (epics state) of
        None \<Rightarrow> Success state
      | Some epic \<Rightarrow>
          if length (tasks epic) = 0 then Success state
          else if \<not> list_all (\<lambda>t. status t = Completed) (tasks epic) then Success state
          else updateEpic state epicId completedInput (clk 0))"

definition completeTaskAndCascade ::
  "State \<Rightarrow> string \<Rightarrow> string \<Rightarrow> clock \<Rightarrow> State OperationResult" where
  "completeTaskAndCascade state epicId taskId clk =
     (case updateTask state epicId taskId completedInput (clk 0) of
        Failure e \<Rightarrow> Failure e
      | Success s \<Rightarrow> maybeCompleteEpic s epicId (\<lambda>k. clk (Suc k)))"

definition maybeCompleteTaskAndEpic ::
  "State \<Rightarrow> string \<Rightarrow> string \<Rightarrow> clock \<Rightarrow> State OperationResult" where
  "maybeCompleteTaskAndEpic state epicId taskId clk =
     (case (case find (\<lambda>e. item_id e = epicId) (epics state) of
              None \<Rightarrow> None
            | Some epic \<Rightarrow> find (\<lambda>t. item_id t = taskId) (tasks epic)) of
        None \<Rightarrow> Success state
      | Some task \<Rightarrow>
          if length (subtasks task) = 0 then Success state
          else if \<not> list_all (\<lambda>s. status s = Completed) (subtasks task)
                  \<or> status task = Completed then Success state
          else (case updateTask state epicId taskId completedInput (clk 0) of
                  Failure e \<Rightarrow> Failure e
                | Success s \<Rightarrow> maybeCompleteEpic s epicId (\<lambda>k. clk (Suc k))))"

definition completeSubtaskAndCascade ::
  "State \<Rightarrow> string \<Rightarrow> string \<Rightarrow> string \<Rightarrow> clock \<Rightarrow> State OperationResult" where
  "completeSubtaskAndCascade state epicId taskId subtaskId clk =
     (case updateSubtask state epicId taskId subtaskId completedInput (clk 0) of
        Failure e \<Rightarrow> Failure e
      | Success s \<Rightarrow> maybeCompleteTaskAndEpic s epicId taskId (\<lambda>k. clk (Suc k)))"

text \<open>The helpers that return \<open>OperationResult | null\<close> return an \<open>option\<close>; a result
  object is always truthy, so \<open>if (r) return r\<close> is the \<open>Some\<close> branch.\<close>

definition findAndCompleteSubtask ::
  "State \<Rightarrow> Epic \<Rightarrow> Task \<Rightarrow> string \<Rightarrow> clock \<Rightarrow> State OperationResult option" where
  "findAndCompleteSubtask state epic task ident clk =
     (case find (\<lambda>s. item_id s = ident) (subtasks task) of
        None \<Rightarrow> None
      | Some subtask \<Rightarrow>
          Some (completeSubtaskAndCascade state (item_id epic) (item_id task) ident clk))"

fun findAndCompleteTask_loop ::
  "State \<Rightarrow> Epic \<Rightarrow> Task list \<Rightarrow> string \<Rightarrow> clock \<Rightarrow> State OperationResult option" where
  "findAndCompleteTask_loop state epic [] ident clk = None"
| "findAndCompleteTask_loop state epic (task # rest) ident clk =
     (if item_id task = ident then Some (completeTaskAndCascade state (item_id epic) ident clk)
      else (case findAndCompleteSubtask state epic task ident clk of
              Some subtaskResult \<Rightarrow> Some subtaskResult
            | None \<Rightarrow> findAndCompleteTask_loop state epic rest ident clk))"

definition findAndCompleteTask ::
  "State \<Rightarrow> Epic \<Rightarrow> string \<Rightarrow> clock \<Rightarrow> State OperationResult option" where
  "findAndCompleteTask state epic ident clk =
     findAndCompleteTask_loop state epic (tasks epic) ident clk"

definition completeStandaloneTask :: "State \<Rightarrow> string \<Rightarrow> clock \<Rightarrow> State OperationResult" where
  "completeStandaloneTask state taskId clk =
     updateStandaloneTask state taskId completedInput (clk 0)"

definition maybeCompleteStandaloneTask ::
  "State \<Rightarrow> string \<Rightarrow> clock \<Rightarrow> State OperationResult" where
  "maybeCompleteStandaloneTask state taskId clk =
     (case find (\<lambda>t. item_id t = taskId) (standaloneTasks state) of
        None \<Rightarrow> Success state
      | Some task \<Rightarrow>
          if length (subtasks task) = 0 then Success state
          else if \<not> list_all (\<lambda>s. status s = Completed) (subtasks task)
                  \<or> status task = Completed then Success state
          else updateStandaloneTask state taskId completedInput (clk 0))"

definition completeStandaloneSubtaskAndCascade ::
  "State \<Rightarrow> string \<Rightarrow> string \<Rightarrow> clock \<Rightarrow> State OperationResult" where
  "completeStandaloneSubtaskAndCascade state taskId subtaskId clk =
     (case findStandaloneTask state taskId of
        None \<Rightarrow> Failure (''Standalone task not found: '' @ taskId)
      | Some lookup \<Rightarrow>
          (case findIndex (\<lambda>s. item_id s = subtaskId) (subtasks (sa_task lookup)) of
             None \<Rightarrow> Failure (''Subtask not found: '' @ subtaskId)
           | Some subtaskIndex \<Rightarrow>
               (let now = clk 0;
                    updatedSubtask =
                      applyUpdate (subtasks (sa_task lookup) ! subtaskIndex) completedInput now;
                    updatedSubtasks = (subtasks (sa_task lookup))[subtaskIndex := updatedSubtask];
                    updatedTask = (sa_task lookup)\<lparr>subtasks := updatedSubtasks,
                                                   updated_at := Some now\<rparr>;
                    newState = updateStandaloneTaskInState state (sa_index lookup) updatedTask
                in maybeCompleteStandaloneTask newState taskId (\<lambda>k. clk (Suc k)))))"

definition findAndCompleteStandaloneSubtask ::
  "State \<Rightarrow> Task \<Rightarrow> string \<Rightarrow> clock \<Rightarrow> State OperationResult option" where
  "findAndCompleteStandaloneSubtask state task ident clk =
     (case find (\<lambda>s. item_id s = ident) (subtasks task) of
        None \<Rightarrow> None
      | Some subtask \<Rightarrow> Some (completeStandaloneSubtaskAndCascade state (item_id task) ident clk))"

fun markComplete_epics ::
  "State \<Rightarrow> Epic list \<Rightarrow> string \<Rightarrow> clock \<Rightarrow> State OperationResult option" where
  "markComplete_epics state [] ident clk = None"
| "markComplete_epics state (epic # rest) ident clk =
     (if item_id epic = ident then Some (markEpicComplete state ident clk)
      else (case findAndCompleteTask state epic ident clk of
              Some taskResult \<Rightarrow> Some taskResult
            | None \<Rightarrow> markComplete_epics state rest ident clk))"

fun markComplete_standalone ::
  "State \<Rightarrow> Task list \<Rightarrow> string \<Rightarrow> clock \<Rightarrow> State OperationResult option" where
  "markComplete_standalone state [] ident clk = None"
| "markComplete_standalone state (task # rest) ident clk =
     (if item_id task = ident then Some (completeStandaloneTask state ident clk)
      else (case findAndCompleteStandaloneSubtask state task ident clk of
              Some subtaskResult \<Rightarrow> Some subtaskResult
            | None \<Rightarrow> markComplete_standalone state rest ident clk))"

definition markComplete :: "State \<Rightarrow> string \<Rightarrow> clock \<Rightarrow> State OperationResult" where
  "markComplete state ident clk =
     (case markComplete_epics state (epics state) ident clk of
        Some r \<Rightarrow> r
      | None \<Rightarrow>
          (case markComplete_standalone state (standaloneTasks state) ident clk of
             Some r \<Rightarrow> r
           | None \<Rightarrow> Failure (''Item not found: '' @ ident)))"

subsection \<open>Remove\<close>

text \<open>\<open>arr.splice(i, 1)\<close> on a copy of the array.\<close>

definition splice1 :: "nat \<Rightarrow> 'a list \<Rightarrow> 'a list" where
  "splice1 i xs = take i xs @ drop (Suc i) xs"

definition removeEpic :: "State \<Rightarrow> nat \<Rightarrow> State OperationResult" where
  "removeEpic state epicIndex = Success (state\<lparr>epics := splice1 epicIndex (epics state)\<rparr>)"

definition removeTask :: "State \<Rightarrow> nat \<Rightarrow> Epic \<Rightarrow> nat \<Rightarrow> string \<Rightarrow> State OperationResult" where
  "removeTask state epicIndex epic taskIndex now =
     (let updatedEpic = epic\<lparr>tasks := splice1 taskIndex (tasks epic), updated_at := Some now\<rparr>
      in Success (updateEpicInState state epicIndex updatedEpic))"

definition removeSubtask ::
  "State \<Rightarrow> nat \<Rightarrow> Epic \<Rightarrow> nat \<Rightarrow> Task \<Rightarrow> nat \<Rightarrow> string \<Rightarrow> State OperationResult" where
  "removeSubtask state epicIndex epic taskIndex task subtaskIndex now =
     (let updatedTask = task\<lparr>subtasks := splice1 subtaskIndex (subtasks task),
                               updated_at := Some now\<rparr>;
          updatedEpic = updateTaskInEpic epic taskIndex updatedTask now
      in Success (updateEpicInState state epicIndex updatedEpic))"

definition findAndRemoveSubtask ::
  "State \<Rightarrow> nat \<Rightarrow> Epic \<Rightarrow> nat \<Rightarrow> Task \<Rightarrow> string \<Rightarrow> string \<Rightarrow> State OperationResult option" where
  "findAndRemoveSubtask state epicIndex epic taskIndex task ident now =
     (case findIndex (\<lambda>s. item_id s = ident) (subtasks task) of
        None \<Rightarrow> None
      | Some subtaskIndex \<Rightarrow>
          Some (removeSubtask state epicIndex epic taskIndex task subtaskIndex now))"

text \<open>The counting loops \<open>for (let i = 0; i < arr.length; i++)\<close> recurse on the rest of
  the array together with the index of its first element.\<close>

fun findAndRemoveTask_loop ::
  "State \<Rightarrow> Epic \<Rightarrow> nat \<Rightarrow> Task list \<Rightarrow> nat \<Rightarrow> string \<Rightarrow> string \<Rightarrow> State OperationResult option"
  where
  "findAndRemoveTask_loop state epic epicIndex [] i ident now = None"
| "findAndRemoveTask_loop state epic epicIndex (task # rest) i ident now =
     (if item_id task = ident then Some (removeTask state epicIndex epic i now)
      else (case findAndRemoveSubtask state epicIndex epic i task ident now of
              Some subtaskResult \<Rightarrow> Some subtaskResult
            | None \<Rightarrow> findAndRemoveTask_loop state epic epicIndex rest (Suc i) ident now))"

definition findAndRemoveTask ::
  "State \<Rightarrow> Epic \<Rightarrow> nat \<Rightarrow> string \<Rightarrow> string \<Rightarrow> State OperationResult option" where
  "findAndRemoveTask state epic epicIndex ident now =
     findAndRemoveTask_loop state epic epicIndex (tasks epic) 0 ident now"

definition removeStandaloneTask :: "State \<Rightarrow> nat \<Rightarrow> State OperationResult" where
  "removeStandaloneTask state taskIndex =
     Success (state\<lparr>state_tasks := Some (splice1 taskIndex (standaloneTasks state))\<rparr>)"

definition removeStandaloneSubtask ::
  "State \<Rightarrow> nat \<Rightarrow> Task \<Rightarrow> nat \<Rightarrow> string \<Rightarrow> State OperationResult" where
  "removeStandaloneSubtask state taskIndex task subtaskIndex now =
     (let updatedTask = task\<lparr>subtasks := splice1 subtaskIndex (subtasks task),
                               updated_at := Some now\<rparr>
      in Success (updateStandaloneTaskInState state taskIndex updatedTask))"

definition findAndRemoveStandaloneSubtask ::
  "State \<Rightarrow> nat \<Rightarrow> Task \<Rightarrow> string \<Rightarrow> string \<Rightarrow> State OperationResult option" where
  "findAndRemoveStandaloneSubtask state taskIndex task ident now =
     (case findIndex (\<lambda>s. item_id s = ident) (subtasks task) of
        None \<Rightarrow> None
      | Some subtaskIndex \<Rightarrow> Some (removeStandaloneSubtask state taskIndex task subtaskIndex now))"

fun removeItem_epics ::
  "State \<Rightarrow> Epic list \<Rightarrow> nat \<Rightarrow> string \<Rightarrow> string \<Rightarrow> State OperationResult option" where
  "removeItem_epics state [] i ident now = None"
| "removeItem_epics state (epic # rest) i ident now =
     (if item_id epic = ident then Some (removeEpic state i)
      else (case findAndRemoveTask state epic i ident now of
              Some taskResult \<Rightarrow> Some taskResult
            | None \<Rightarrow> removeItem_epics state rest (Suc i) ident now))"

fun removeItem_standalone ::
  "State \<Rightarrow> Task list \<Rightarrow> nat \<Rightarrow> string \<Rightarrow> string \<Rightarrow> State OperationResult option" where
  "removeItem_standalone state [] i ident now = None"
| "removeItem_standalone state (task # rest) i ident now =
     (if item_id task = ident then Some (removeStandaloneTask state i)
      else (case findAndRemoveStandaloneSubtask state i task ident now of
              Some subtaskResult \<Rightarrow> Some subtaskResult
            | None \<Rightarrow> removeItem_standalone state rest (Suc i) ident now))"

definition removeItem :: "State \<Rightarrow> string \<Rightarrow> string \<Rightarrow> State OperationResult" where
  "removeItem state ident now =
     (case removeItem_epics state (epics state) 0 ident now of
        Some r \<Rightarrow> r
      | None \<Rightarrow>
          (case removeItem_standalone state (standaloneTasks state) 0 ident now of
             Some r \<Rightarrow> r
           | None \<Rightarrow> Failure (''Item not found: '' @ ident)))"

definition createEmptyState :: State where
  "createEmptyState = \<lparr>version = 1, epics = [], state_tasks = Some []\<rparr>"

section \<open>Queries (core/queries.ts)\<close>

datatype ItemType = EpicType | TaskType | SubtaskType

definition typeName :: "ItemType \<Rightarrow> string" where
  "typeName t = (case t of EpicType \<Rightarrow> ''epic'' | TaskType \<Rightarrow> ''task'' | SubtaskType \<Rightarrow> ''subtask'')"

text \<open>The \<open>level\<close> argument of \<open>getNext\<close>: \<open>'epic' | 'task' | 'subtask' | 'any'\<close>.\<close>

datatype Level = LevelEpic | LevelTask | LevelSubtask | LevelAny

definition levelName :: "Level \<Rightarrow> string" where
  "levelName l = (case l of LevelEpic \<Rightarrow> ''epic'' | LevelTask \<Rightarrow> ''task''
                  | LevelSubtask \<Rightarrow> ''subtask'' | LevelAny \<Rightarrow> ''any'')"

text \<open>The parent fields of a FlatItem carry the prefix \<open>fi_\<close> (\<open>fi_epicId\<close> is \<open>epicId\<close>), and
  \<open>type\<close> is \<open>item_type\<close>.\<close>

record FlatItem = Item +
  item_type :: ItemType
  fi_epicId :: "string option"
  fi_epicContent :: "string option"
  fi_taskId :: "string option"
  fi_taskContent :: "string option"
  depth :: int
  hasChildren :: bool
  childrenCount :: nat
  completedChildrenCount :: nat
  isStandalone :: "bool option"

definition flattenEpic :: "Epic \<Rightarrow> FlatItem" where
  "flattenEpic epic =
     (let epicTasksCount = length (tasks epic);
          epicCompletedTasks = length (filter (\<lambda>t. status t = Completed) (tasks epic))
      in \<lparr>item_id = item_id epic, content = content epic, priority = priority epic,
          status = status epic, created_at = created_at epic, updated_at = updated_at epic,
          completed_at = completed_at epic,
          implementation_description = implementation_description epic,
          item_notes = item_notes epic, deps = deps epic,
          item_type = EpicType, fi_epicId = None, fi_epicContent = None, fi_taskId = None,
          fi_taskContent = None, depth = 0, hasChildren = (epicTasksCount > 0),
          childrenCount = epicTasksCount, completedChildrenCount = epicCompletedTasks,
          isStandalone = None\<rparr>)"

definition flattenTask :: "Epic option \<Rightarrow> Task \<Rightarrow> FlatItem" where
  "flattenTask epic task =
     (let taskSubtasksCount = length (subtasks task);
          taskCompletedSubtasks = length (filter (\<lambda>s. status s = Completed) (subtasks task));
          standalone = (epic = None)
      in \<lparr>item_id = item_id task, content = content task, priority = priority task,
          status = status task, created_at = created_at task, updated_at = updated_at task,
          completed_at = completed_at task,
          implementation_description = implementation_description task,
          item_notes = item_notes task, deps = deps task,
          item_type = TaskType, fi_epicId = map_option item_id epic,
          fi_epicContent = map_option content epic, fi_taskId = None, fi_taskContent = None,
          depth = (if standalone then 0 else 1), hasChildren = (taskSubtasksCount > 0),
          childrenCount = taskSubtasksCount, completedChildrenCount = taskCompletedSubtasks,
          isStandalone = Some standalone\<rparr>)"

definition flattenSubtask :: "Epic option \<Rightarrow> Task \<Rightarrow> Subtask \<Rightarrow> FlatItem" where
  "flattenSubtask epic task subtask =
     (let standalone = (epic = None)
      in \<lparr>item_id = item_id subtask, content = content subtask, priority = priority subtask,
          status = status subtask, created_at = created_at subtask,
          updated_at = updated_at subtask, completed_at = completed_at subtask,
          implementation_description = implementation_description subtask,
          item_notes = item_notes subtask, deps = deps subtask,
          item_type = SubtaskType, fi_epicId = map_option item_id epic,
          fi_epicContent = map_option content epic, fi_taskId = Some (item_id task),
          fi_taskContent = Some (content task),
          depth = (if standalone then 1 else 2), hasChildren = False,
          childrenCount = 0, completedChildrenCount = 0,
          isStandalone = Some standalone\<rparr>)"

text \<open>The nested \<open>for\<close> loops of \<open>flattenState\<close> push in document order: an item, then
  everything below it.\<close>

definition flattenTaskTree :: "Epic option \<Rightarrow> Task \<Rightarrow> FlatItem list" where
  "flattenTaskTree epic task =
     flattenTask epic task # map (flattenSubtask epic task) (subtasks task)"

definition flattenEpicTree :: "Epic \<Rightarrow> FlatItem list" where
  "flattenEpicTree epic =
     flattenEpic epic # concat (map (flattenTaskTree (Some epic)) (tasks epic))"

definition flattenState :: "State \<Rightarrow> FlatItem list" where
  "flattenState state =
     concat (map flattenEpicTree (epics state)) @
     concat (map (flattenTaskTree None) (standaloneTasks state))"

text \<open>The result field \<open>item\<close> is \<open>next_item\<close> here; \<open>None\<close> is \<open>null\<close>.\<close>

record GetNextResult =
  next_item :: "FlatItem option"
  queueDepth :: nat
  blockedByDeps :: int

definition areDepsComplete :: "FlatItem \<Rightarrow> FlatItem list \<Rightarrow> bool" where
  "areDepsComplete it allItems =
     (case deps it of
        None \<Rightarrow> True
      | Some ds \<Rightarrow>
          if length ds = 0 then True
          else list_all (\<lambda>depId. case find (\<lambda>i. item_id i = depId) allItems of
                                   None \<Rightarrow> False
                                 | Some dep \<Rightarrow> status dep = Completed) ds)"

text \<open>\<open>Array.prototype.sort\<close> with a comparator is stable (ECMAScript 2019): an element
  moves in front of another only when the comparator says so. For a comparator that
  orders the elements consistently, as the one of \<open>getNext\<close> does, the result is the one
  of a stable insertion sort.\<close>

fun insort_cmp :: "('a \<Rightarrow> 'a \<Rightarrow> int) \<Rightarrow> 'a \<Rightarrow> 'a list \<Rightarrow> 'a list" where
  "insort_cmp cmp x [] = [x]"
| "insort_cmp cmp x (y # ys) = (if cmp x y \<le> 0 then x # y # ys else y # insort_cmp cmp x ys)"

definition sort_cmp :: "('a \<Rightarrow> 'a \<Rightarrow> int) \<Rightarrow> 'a list \<Rightarrow> 'a list" where
  "sort_cmp cmp xs = foldr (insort_cmp cmp) xs []"

definition compareItems :: "Level \<Rightarrow> FlatItem \<Rightarrow> FlatItem \<Rightarrow> int" where
  "compareItems level a b =
     (if priority a \<noteq> priority b then priority a - priority b
      else if level = LevelAny then depth b - depth a else 0)"

text \<open>The optional \<open>level\<close> defaults to \<open>'any'\<close>.\<close>

definition getNext :: "State \<Rightarrow> Level option \<Rightarrow> GetNextResult" where
  "getNext state levelArg =
     (let level = (case levelArg of None \<Rightarrow> LevelAny | Some l \<Rightarrow> l);
          flat = flattenState state;
          actionable = filter (\<lambda>it. status it = Pending \<or> status it = InProgress) flat;
          filtered = (if level = LevelAny then actionable
                      else filter (\<lambda>it. typeName (item_type it) = levelName level) actionable);
          ready = filter (\<lambda>it. areDepsComplete it flat) filtered;
          blocked = int (length filtered) - int (length ready);
          sorted = sort_cmp (compareItems level) ready
      in \<lparr>next_item = (case sorted of [] \<Rightarrow> None | first # _ \<Rightarrow> Some first),
          queueDepth = length ready, blockedByDeps = blocked\<rparr>)"

section \<open>Schema and validator (core/schema.ts, core/validation.ts)\<close>

subsection \<open>Raw documents\<close>

text \<open>The argument of \<open>validateState\<close> has type \<open>unknown\<close>; a document read by
  \<open>JSON.parse\<close> is one of the values below. An object is a list of properties, read
  with \<open>map_of\<close>; a property that is absent reads as \<open>None\<close> (undefined).\<close>

datatype json =
  JNull | JBool bool | JNum rat | JStr string | JArr "json list" | JObj "(string \<times> json) list"

subsection \<open>The schemas of core/schema.ts\<close>

text \<open>Each zod schema is the function its \<open>safeParse\<close> computes on a property value:
  \<open>Some\<close> of the parsed output, or \<open>None\<close> when an issue is raised. An object schema made
  with \<open>z.object\<close> keeps the keys of its shape and strips every other key of the input
  (zod's default for unrecognised keys); \<open>.optional()\<close> accepts an absent property and
  \<open>.default(v)\<close> replaces it by \<open>v\<close>.\<close>

definition MIN_DESCRIPTION_LENGTH :: nat where
  "MIN_DESCRIPTION_LENGTH = 10"

text \<open>\<open>z.string().min(n)\<close>\<close>

definition z_string_min :: "nat \<Rightarrow> json option \<Rightarrow> string option" where
  "z_string_min n v = (case v of Some (JStr s) \<Rightarrow> if n \<le> length s then Some s else None
                       | _ \<Rightarrow> None)"

text \<open>\<open>StatusSchema = z.enum(['pending', 'in_progress', 'completed', 'blocked'])\<close>\<close>

definition StatusSchema :: "json option \<Rightarrow> Status option" where
  "StatusSchema v =
     (case v of
        Some (JStr s) \<Rightarrow>
          if s = ''pending'' then Some Pending
          else if s = ''in_progress'' then Some InProgress
          else if s = ''completed'' then Some Completed
          else if s = ''blocked'' then Some Blocked
          else None
      | _ \<Rightarrow> None)"

text \<open>\<open>StatusSchema.default('pending')\<close>\<close>

definition StatusSchema_default :: "json option \<Rightarrow> Status option" where
  "StatusSchema_default v = (case v of None \<Rightarrow> Some Pending | Some x \<Rightarrow> StatusSchema (Some x))"

text \<open>\<open>PrioritySchema = z.number().int().min(1).max(5)\<close>\<close>

definition PrioritySchema :: "json option \<Rightarrow> int option" where
  "PrioritySchema v =
     (case v of
        Some (JNum r) \<Rightarrow>
          if of_int \<lfloor>r\<rfloor> = r \<and> 1 \<le> r \<and> r \<le> 5 then Some \<lfloor>r\<rfloor> else None
      | _ \<Rightarrow> None)"

text \<open>\<open>z.string().datetime()\<close>: an ISO 8601 instant in UTC, \<open>YYYY-MM-DDTHH:MM:SS\<close>, an
  optional fraction of a second, and \<open>Z\<close>. The shape of the string is what is checked
  here; the claims below do not depend on which well-shaped strings are accepted.\<close>

definition isDigits :: "string \<Rightarrow> bool" where
  "isDigits s = list_all (\<lambda>c. c \<in> set ''0123456789'') s"

definition isDatetime :: "string \<Rightarrow> bool" where
  "isDatetime s \<longleftrightarrow>
     20 \<le> length s \<and>
     isDigits (take 4 s) \<and> take 1 (drop 4 s) = ''-'' \<and>
     isDigits (take 2 (drop 5 s)) \<and> take 1 (drop 7 s) = ''-'' \<and>
     isDigits (take 2 (drop 8 s)) \<and> take 1 (drop 10 s) = ''T'' \<and>
     isDigits (take 2 (drop 11 s)) \<and> take 1 (drop 13 s) = '':'' \<and>
     isDigits (take 2 (drop 14 s)) \<and> take 1 (drop 16 s) = '':'' \<and>
     isDigits (take 2 (drop 17 s)) \<and>
     (drop 19 s = ''Z'' \<or>
      (take 1 (drop 19 s) = ''.'' \<and> 22 \<le> length s \<and> drop (length s - 1) s = ''Z'' \<and>
       isDigits (take (length s - 21) (drop 20 s))))"

definition z_datetime :: "json option \<Rightarrow> string option" where
  "z_datetime v = (case v of Some (JStr s) \<Rightarrow> if isDatetime s then Some s else None
                   | _ \<Rightarrow> None)"

text \<open>\<open>z.string().datetime().optional()\<close>\<close>

definition z_datetime_optional :: "json option \<Rightarrow> string option option" where
  "z_datetime_optional v =
     (case v of None \<Rightarrow> Some None | Some x \<Rightarrow> map_option Some (z_datetime (Some x)))"

text \<open>\<open>z.array(schema)\<close>, and the same with \<open>.optional()\<close> and \<open>.default([])\<close>.\<close>

definition z_array :: "(json option \<Rightarrow> 'a option) \<Rightarrow> json option \<Rightarrow> 'a list option" where
  "z_array schema v =
     (case v of Some (JArr xs) \<Rightarrow> those (map (\<lambda>x. schema (Some x)) xs) | _ \<Rightarrow> None)"

definition z_array_optional ::
  "(json option \<Rightarrow> 'a option) \<Rightarrow> json option \<Rightarrow> 'a list option option" where
  "z_array_optional schema v =
     (case v of None \<Rightarrow> Some None | Some x \<Rightarrow> map_option Some (z_array schema (Some x)))"

definition z_array_default ::
  "(json option \<Rightarrow> 'a option) \<Rightarrow> json option \<Rightarrow> 'a list option" where
  "z_array_default schema v = (case v of None \<Rightarrow> Some [] | Some x \<Rightarrow> z_array schema (Some x))"

text \<open>\<open>z.string()\<close>\<close>

definition z_string :: "json option \<Rightarrow> string option" where
  "z_string v = (case v of Some (JStr s) \<Rightarrow> Some s | _ \<Rightarrow> None)"

text \<open>The three object schemas. Their shapes have the keys \<open>id\<close>, \<open>content\<close>, \<open>priority\<close>,
  \<open>status\<close>, \<open>created_at\<close>, \<open>updated_at\<close>, \<open>completed_at\<close>, \<open>notes\<close> and the child array; the
  parsed object has no other key, so \<open>deps\<close> and \<open>implementation_description\<close> are absent
  from it.\<close>

definition SubtaskSchema :: "json option \<Rightarrow> Subtask option" where
  "SubtaskSchema v =
     (case v of
        Some (JObj kvs) \<Rightarrow>
          do {
            i \<leftarrow> z_string_min 1 (map_of kvs ''id'');
            c \<leftarrow> z_string_min MIN_DESCRIPTION_LENGTH (map_of kvs ''content'');
            p \<leftarrow> PrioritySchema (map_of kvs ''priority'');
            s \<leftarrow> StatusSchema_default (map_of kvs ''status'');
            ca \<leftarrow> z_datetime (map_of kvs ''created_at'');
            ua \<leftarrow> z_datetime_optional (map_of kvs ''updated_at'');
            co \<leftarrow> z_datetime_optional (map_of kvs ''completed_at'');
            n \<leftarrow> z_array_optional z_string (map_of kvs ''notes'');
            Some \<lparr>item_id = i, content = c, priority = p, status = s, created_at = ca,
                  updated_at = ua, completed_at = co, implementation_description = None,
                  item_notes = n, deps = None\<rparr>
          }
      | _ \<Rightarrow> None)"

definition TaskSchema :: "json option \<Rightarrow> Task option" where
  "TaskSchema v =
     (case v of
        Some (JObj kvs) \<Rightarrow>
          do {
            i \<leftarrow> z_string_min 1 (map_of kvs ''id'');
            c \<leftarrow> z_string_min MIN_DESCRIPTION_LENGTH (map_of kvs ''content'');
            p \<leftarrow> PrioritySchema (map_of kvs ''priority'');
            s \<leftarrow> StatusSchema_default (map_of kvs ''status'');
            ca \<leftarrow> z_datetime (map_of kvs ''created_at'');
            ua \<leftarrow> z_datetime_optional (map_of kvs ''updated_at'');
            co \<leftarrow> z_datetime_optional (map_of kvs ''completed_at'');
            n \<leftarrow> z_array_optional z_string (map_of kvs ''notes'');
            sts \<leftarrow> z_array_default SubtaskSchema (map_of kvs ''subtasks'');
            Some \<lparr>item_id = i, content = c, priority = p, status = s, created_at = ca,
                  updated_at = ua, completed_at = co, implementation_description = None,
                  item_notes = n, deps = None, subtasks = sts\<rparr>
          }
      | _ \<Rightarrow> None)"

definition EpicSchema :: "json option \<Rightarrow> Epic option" where
  "EpicSchema v =
     (case v of
        Some (JObj kvs) \<Rightarrow>
          do {
            i \<leftarrow> z_string_min 1 (map_of kvs ''id'');
            c \<leftarrow> z_string_min MIN_DESCRIPTION_LENGTH (map_of kvs ''content'');
            p \<leftarrow> PrioritySchema (map_of kvs ''priority'');
            s \<leftarrow> StatusSchema_default (map_of kvs ''status'');
            ca \<leftarrow> z_datetime (map_of kvs ''created_at'');
            ua \<leftarrow> z_datetime_optional (map_of kvs ''updated_at'');
            co \<leftarrow> z_datetime_optional (map_of kvs ''completed_at'');
            n \<leftarrow> z_array_optional z_string (map_of kvs ''notes'');
            ts \<leftarrow> z_array_default TaskSchema (map_of kvs ''tasks'');
            Some \<lparr>item_id = i, content = c, priority = p, status = s, created_at = ca,
                  updated_at = ua, completed_at = co, implementation_description = None,
                  item_notes = n, deps = None, tasks = ts\<rparr>
          }
      | _ \<Rightarrow> None)"

text \<open>\<open>StateSchema = z.object({version: z.literal(1), epics: z.array(EpicSchema).default([])})\<close>:
  the shape has no \<open>tasks\<close> key, so the parsed state has no top-level \<open>tasks\<close>.\<close>

definition StateSchema :: "json option \<Rightarrow> State option" where
  "StateSchema v =
     (case v of
        Some (JObj kvs) \<Rightarrow>
          do {
            ver \<leftarrow> (if map_of kvs ''version'' = Some (JNum 1) then Some (1::int) else None);
            es \<leftarrow> z_array_default EpicSchema (map_of kvs ''epics'');
            Some \<lparr>version = ver, epics = es, state_tasks = None\<rparr>
          }
      | _ \<Rightarrow> None)"

subsection \<open>validateState\<close>

text \<open>The invalid result carries zod's issue list as strings; only the fact that the
  document is rejected is kept here.\<close>

datatype ValidationResult = Valid State | Invalid

definition validateState :: "json \<Rightarrow> ValidationResult" where
  "validateState raw = (case StateSchema (Some raw) of Some st \<Rightarrow> Valid st | None \<Rightarrow> Invalid)"

subsection \<open>lintState\<close>

record LintResult =
  warnings :: "string list"
  suggestions :: "string list"

text \<open>The message templates: the double quote character, and a number printed in
  decimal.\<close>

definition dq :: string where
  "dq = [CHR 0x22]"

definition digitChar :: "nat \<Rightarrow> char" where
  "digitChar d = ''0123456789'' ! d"

fun decimal :: "nat \<Rightarrow> string" where
  "decimal n = (if 10 \<le> n then decimal (n div 10) @ [digitChar (n mod 10)] else [digitChar n])"

declare decimal.simps [simp del]

definition checkEpicCompletion :: "Epic \<Rightarrow> string option" where
  "checkEpicCompletion epic =
     (if status epic \<noteq> Completed then None
      else (let incompleteTasks = filter (\<lambda>t. status t \<noteq> Completed) (tasks epic)
            in if length incompleteTasks = 0 then None
               else Some (''Epic '' @ dq @ take 30 (content epic) @ ''...'' @ dq
                          @ '' is completed but has '' @ decimal (length incompleteTasks)
                          @ '' incomplete task(s)'')))"

definition checkTaskCompletion :: "Task \<Rightarrow> string option" where
  "checkTaskCompletion task =
     (if status task \<noteq> Completed then None
      else (let incompleteSubtasks = filter (\<lambda>s. status s \<noteq> Completed) (subtasks task)
            in if length incompleteSubtasks = 0 then None
               else Some (''Task '' @ dq @ take 30 (content task) @ ''...'' @ dq
                          @ '' is completed but has ''
                          @ decimal (length incompleteSubtasks)
                          @ '' incomplete subtask(s)'')))"

definition suggestTaskCompletion :: "Task \<Rightarrow> string option" where
  "suggestTaskCompletion task =
     (if status task = Completed \<or> length (subtasks task) = 0 then None
      else if \<not> list_all (\<lambda>s. status s = Completed) (subtasks task) then None
      else Some (''Task '' @ dq @ take 30 (content task) @ ''...'' @ dq
                 @ '' has all subtasks complete - consider marking it complete''))"

definition suggestEpicCompletion :: "Epic \<Rightarrow> string option" where
  "suggestEpicCompletion epic =
     (if status epic = Completed \<or> length (tasks epic) = 0 then None
      else if \<not> list_all (\<lambda>t. status t = Completed) (tasks epic) then None
      else Some (''Epic '' @ dq @ take 30 (content epic) @ ''...'' @ dq
                 @ '' has all tasks complete - consider marking it complete''))"

text \<open>The dependency checks loop over \<open>deps\<close> and push at most one warning per id.\<close>

definition checkEpicDeps :: "Epic \<Rightarrow> string set \<Rightarrow> string list" where
  "checkEpicDeps epic allEpicIds =
     (case deps epic of
        None \<Rightarrow> []
      | Some ds \<Rightarrow>
          concat (map (\<lambda>depId.
            if depId = item_id epic
            then [''Epic '' @ dq @ take 20 (content epic) @ ''...'' @ dq @ '' depends on itself'']
            else if depId \<notin> allEpicIds
            then [''Epic '' @ dq @ take 20 (content epic) @ ''...'' @ dq
                  @ '' has invalid dep: '' @ depId]
            else []) ds))"

definition checkTaskDeps :: "Task \<Rightarrow> string set \<Rightarrow> string \<Rightarrow> string list" where
  "checkTaskDeps task epicTaskIds epicContent =
     (case deps task of
        None \<Rightarrow> []
      | Some ds \<Rightarrow>
          concat (map (\<lambda>depId.
            if depId = item_id task
            then [''Task '' @ dq @ take 20 (content task) @ ''...'' @ dq @ '' depends on itself'']
            else if depId \<notin> epicTaskIds
            then [''Task '' @ dq @ take 20 (content task) @ ''...'' @ dq @ '' in '' @ dq
                  @ take 15 epicContent @ ''...'' @ dq @ '' has invalid dep: '' @ depId]
            else []) ds))"

definition checkSubtaskDeps :: "Subtask \<Rightarrow> string set \<Rightarrow> string \<Rightarrow> string list" where
  "checkSubtaskDeps subtask taskSubtaskIds taskContent =
     (case deps subtask of
        None \<Rightarrow> []
      | Some ds \<Rightarrow>
          concat (map (\<lambda>depId.
            if depId = item_id subtask
            then [''Subtask '' @ dq @ take 20 (content subtask) @ ''...'' @ dq
                  @ '' depends on itself'']
            else if depId \<notin> taskSubtaskIds
            then [''Subtask '' @ dq @ take 20 (content subtask) @ ''...'' @ dq @ '' in '' @ dq
                  @ take 15 taskContent @ ''...'' @ dq @ '' has invalid dep: '' @ depId]
            else []) ds))"

text \<open>The \<open>Map\<close> from ids to dependency lists is an association list; \<open>Map.set\<close> replaces
  the value of a key that is present and appends a new key, and \<open>depsMap.get(id) ?? []\<close>
  is \<open>depsGet\<close>.\<close>

definition depsGet :: "(string \<times> string list) list \<Rightarrow> string \<Rightarrow> string list" where
  "depsGet depsMap depId = (case map_of depsMap depId of None \<Rightarrow> [] | Some ds \<Rightarrow> ds)"

text \<open>\<open>detectCycle\<close> adds \<open>id\<close> to the shared set \<open>visited\<close>, recurses into the dependencies
  and deletes \<open>id\<close> again before it returns false; it returns true without deleting. A
  call that returns false therefore leaves \<open>visited\<close> as it found it, and a call that
  returns true ends the whole traversal (\<open>checkCycles\<close> starts each one with a fresh
  set). So every call sees exactly the ids of the calls that are still active, and the
  set can be passed down as a value. The \<open>for\<close> loop with its early \<open>return true\<close> is
  \<open>list_ex\<close>. The recursion ends because an id that is in the map can be entered only
  once along a path, and an id that is not in the map has no dependencies.\<close>

function detectCycle ::
  "string \<Rightarrow> string list \<Rightarrow> (string \<times> string list) list \<Rightarrow> string set \<Rightarrow> bool" where
  "detectCycle ident ds depsMap visited =
     (if ident \<in> visited then True
      else list_ex (\<lambda>depId. detectCycle depId (depsGet depsMap depId) depsMap
                              (insert ident visited)) ds)"
  by pat_completeness auto
termination
proof (relation "measure (\<lambda>(ident, ds, depsMap, visited).
          2 * card (fst ` set depsMap - visited)
          + (if ds = depsGet depsMap ident then 0 else 1))", goal_cases)
  case 1
  show ?case by simp
next
  case (2 ident ds depsMap visited depId)
  show ?case
  proof (cases "ident \<in> fst ` set depsMap")
    case True
    with 2 have mem: "ident \<in> fst ` set depsMap - visited" by simp
    have fin: "finite (fst ` set depsMap - visited)" by simp
    have "fst ` set depsMap - insert ident visited
            = (fst ` set depsMap - visited) - {ident}" by auto
    with card_Diff1_less[OF fin mem]
    have "card (fst ` set depsMap - insert ident visited)
            < card (fst ` set depsMap - visited)"
      by simp
    then show ?thesis by simp
  next
    case False
    then have "map_of depsMap ident = None" by (simp add: map_of_eq_None_iff)
    with 2 have "ds \<noteq> depsGet depsMap ident" by (auto simp: depsGet_def)
    moreover from False have "fst ` set depsMap - insert ident visited
                                = fst ` set depsMap - visited" by auto
    ultimately show ?thesis by simp
  qed
qed

declare detectCycle.simps [simp del]

definition depsOrEmpty :: "'a Item_scheme \<Rightarrow> string list" where
  "depsOrEmpty it = (case deps it of None \<Rightarrow> [] | Some ds \<Rightarrow> ds)"

definition buildDepsMap :: "'a Item_scheme list \<Rightarrow> (string \<times> string list) list" where
  "buildDepsMap items =
     foldl (\<lambda>depsMap it. AList.update (item_id it) (depsOrEmpty it) depsMap) [] items"

definition circularWarning :: "string \<Rightarrow> 'a Item_scheme \<Rightarrow> string" where
  "circularWarning typeLabel it =
     typeLabel @ '' '' @ dq @ take 20 (content it) @ ''...'' @ dq @ '' has circular dependency''"

definition checkCycles :: "'a Item_scheme list \<Rightarrow> string \<Rightarrow> string list" where
  "checkCycles items typeLabel =
     (let depsMap = buildDepsMap items
      in concat (map (\<lambda>it.
           case deps it of
             None \<Rightarrow> []
           | Some ds \<Rightarrow>
               if length ds = 0 then []
               else if detectCycle (item_id it) ds depsMap {}
               then [circularWarning typeLabel it]
               else []) items))"

definition optionToList :: "'a option \<Rightarrow> 'a list" where
  "optionToList x = (case x of None \<Rightarrow> [] | Some v \<Rightarrow> [v])"

text \<open>The body of the loop over the Tasks of an Epic, split into what it pushes to
  \<open>warnings\<close> and to \<open>suggestions\<close>.\<close>

definition lintTaskWarnings :: "Epic \<Rightarrow> string set \<Rightarrow> Task \<Rightarrow> string list" where
  "lintTaskWarnings epic taskIds task =
     optionToList (checkTaskCompletion task)
     @ checkTaskDeps task taskIds (content epic)
     @ (let subtaskIds = set (map item_id (subtasks task))
        in concat (map (\<lambda>subtask. checkSubtaskDeps subtask subtaskIds (content task))
                     (subtasks task)))
     @ checkCycles (subtasks task) ''Subtask''"

definition lintEpic :: "Epic \<Rightarrow> LintResult" where
  "lintEpic epic =
     (let taskIds = set (map item_id (tasks epic))
      in \<lparr>warnings =
            optionToList (checkEpicCompletion epic)
            @ concat (map (lintTaskWarnings epic taskIds) (tasks epic))
            @ checkCycles (tasks epic) ''Task'',
          suggestions =
            concat (map (\<lambda>task. optionToList (suggestTaskCompletion task)) (tasks epic))
            @ optionToList (suggestEpicCompletion epic)\<rparr>)"

definition lintState :: "State \<Rightarrow> LintResult" where
  "lintState state =
     (let epicIds = set (map item_id (epics state))
      in \<lparr>warnings =
            concat (map (\<lambda>epic. checkEpicDeps epic epicIds @ warnings (lintEpic epic))
                      (epics state))
            @ checkCycles (epics state) ''Epic'',
          suggestions = concat (map (\<lambda>epic. suggestions (lintEpic epic)) (epics state))\<rparr>)"

section \<open>Properties and example data\<close>

text \<open>What an update promises about the timestamps of the item it touches: the same
  item, \<open>updated_at\<close> set to the new timestamp, \<open>completed_at\<close> set to it when the input's
  status is \<open>completed\<close> and left as it was otherwise.\<close>

definition timestampsRefreshed ::
  "'a Item_scheme \<Rightarrow> 'a Item_scheme \<Rightarrow> UpdateItemInput \<Rightarrow> string \<Rightarrow> bool" where
  "timestampsRefreshed old new input now \<longleftrightarrow>
     item_id new = item_id old \<and> updated_at new = Some now \<and>
     completed_at new = (if in_status input = Some Completed then Some now else completed_at old)"

text \<open>A small tree used to instantiate the theorems: one Epic with one Task with one
  Subtask, and one standalone Task with one Subtask.\<close>

definition exSubtask :: Subtask where
  "exSubtask =
     \<lparr>item_id = ''s1'', content = ''Write token expiry check'', priority = 1, status = Pending,
      created_at = ''2024-01-15T10:10:00.000Z'', updated_at = None, completed_at = None,
      implementation_description = None, item_notes = None, deps = None\<rparr>"

definition exTask :: Task where
  "exTask =
     \<lparr>item_id = ''t1'', content = ''Implement JWT token validation'', priority = 1,
      status = Pending, created_at = ''2024-01-15T10:05:00.000Z'', updated_at = None,
      completed_at = None, implementation_description = None, item_notes = None, deps = None,
      subtasks = [exSubtask]\<rparr>"

definition exEpic :: Epic where
  "exEpic =
     \<lparr>item_id = ''e1'', content = ''Build user authentication system'', priority = 1,
      status = Pending, created_at = ''2024-01-15T10:00:00.000Z'', updated_at = None,
      completed_at = None, implementation_description = None, item_notes = None, deps = None,
      tasks = [exTask]\<rparr>"

definition exStandaloneSubtask :: Subtask where
  "exStandaloneSubtask =
     \<lparr>item_id = ''s2'', content = ''Collect the release notes'', priority = 2, status = Pending,
      created_at = ''2024-01-16T09:10:00.000Z'', updated_at = None, completed_at = None,
      implementation_description = None, item_notes = None, deps = None\<rparr>"

definition exStandaloneTask :: Task where
  "exStandaloneTask =
     \<lparr>item_id = ''t2'', content = ''Publish the next release'', priority = 2,
      status = Pending, created_at = ''2024-01-16T09:00:00.000Z'', updated_at = None,
      completed_at = None, implementation_description = None, item_notes = None, deps = None,
      subtasks = [exStandaloneSubtask]\<rparr>"

definition exState :: State where
  "exState = \<lparr>version = 1, epics = [exEpic], state_tasks = Some [exStandaloneTask]\<rparr>"

text \<open>The identifiers of a Task and its Subtasks, of an Epic and everything below it, and
  of the whole State, in document order. The data model requires them to be unique
  across the entire State.\<close>

definition taskIds :: "Task \<Rightarrow> string list" where
  "taskIds t = item_id t # map item_id (subtasks t)"

definition epicIds :: "Epic \<Rightarrow> string list" where
  "epicIds e = item_id e # concat (map taskIds (tasks e))"

definition stateIds :: "State \<Rightarrow> string list" where
  "stateIds s = concat (map epicIds (epics s)) @ concat (map taskIds (standaloneTasks s))"

definition uniqueIds :: "State \<Rightarrow> bool" where
  "uniqueIds s \<longleftrightarrow> distinct (stateIds s)"

text \<open>A clock for the examples: the first three values of \<open>timestamp()\<close>.\<close>

definition exClock :: clock where
  "exClock k = (if k = 0 then ''2024-02-01T08:00:00.000Z''
                else if k = 1 then ''2024-02-01T08:00:00.001Z''
                else ''2024-02-01T08:00:00.002Z'')"

text \<open>The example tree with the Task already completed while its Subtask is still
  pending (reachable with \<open>updateTask\<close>, which does not look at the Subtasks), and the
  state \<open>markComplete\<close> returns for the Subtask's id.\<close>

definition exTaskDone :: Task where
  "exTaskDone = exTask\<lparr>status := Completed, completed_at := Some ''2024-01-20T12:00:00.000Z''\<rparr>"

definition exEpicTaskDone :: Epic where
  "exEpicTaskDone = exEpic\<lparr>tasks := [exTaskDone]\<rparr>"

definition exStateTaskDone :: State where
  "exStateTaskDone = \<lparr>version = 1, epics = [exEpicTaskDone], state_tasks = Some []\<rparr>"

definition exStateTaskDoneAfter :: State where
  "exStateTaskDoneAfter =
     \<lparr>version = 1,
      epics = [exEpicTaskDone
                 \<lparr>tasks := [exTaskDone
                              \<lparr>subtasks := [exSubtask\<lparr>status := Completed,
                                                       updated_at := Some (exClock 0),
                                                       completed_at := Some (exClock 0)\<rparr>],
                               updated_at := Some (exClock 0)\<rparr>],
                  updated_at := Some (exClock 0)\<rparr>],
      state_tasks = Some []\<rparr>"

text \<open>An Epic with two Tasks: the first has one completed and one pending Subtask, the
  second is pending.\<close>

definition exSubtaskDone :: Subtask where
  "exSubtaskDone =
     exSubtask\<lparr>item_id := ''s0'', status := Completed,
               completed_at := Some ''2024-01-18T09:30:00.000Z''\<rparr>"

definition exTaskTwoSubtasks :: Task where
  "exTaskTwoSubtasks = exTask\<lparr>subtasks := [exSubtaskDone, exSubtask]\<rparr>"

definition exOtherTask :: Task where
  "exOtherTask = exTask\<lparr>item_id := ''t3'', subtasks := []\<rparr>"

definition exEpicTwoTasks :: Epic where
  "exEpicTwoTasks = exEpic\<lparr>tasks := [exTaskTwoSubtasks, exOtherTask]\<rparr>"

definition exStateTwoTasks :: State where
  "exStateTwoTasks = \<lparr>version = 1, epics = [exEpicTwoTasks], state_tasks = Some []\<rparr>"

text \<open>The example tree with every item already completed.\<close>

definition exSubtaskC :: Subtask where
  "exSubtaskC = exSubtask\<lparr>status := Completed, completed_at := Some ''2024-01-20T12:00:00.000Z''\<rparr>"

definition exTaskC :: Task where
  "exTaskC = exTask\<lparr>status := Completed, completed_at := Some ''2024-01-20T12:00:00.000Z'',
                     subtasks := [exSubtaskC]\<rparr>"

definition exEpicC :: Epic where
  "exEpicC = exEpic\<lparr>status := Completed, completed_at := Some ''2024-01-20T12:00:00.000Z'',
                     tasks := [exTaskC]\<rparr>"

definition exStandaloneSubtaskC :: Subtask where
  "exStandaloneSubtaskC =
     exStandaloneSubtask\<lparr>status := Completed, completed_at := Some ''2024-01-21T12:00:00.000Z''\<rparr>"

definition exStandaloneTaskC :: Task where
  "exStandaloneTaskC =
     exStandaloneTask\<lparr>status := Completed, completed_at := Some ''2024-01-21T12:00:00.000Z'',
                       subtasks := [exStandaloneSubtaskC]\<rparr>"

definition exStateAllDone :: State where
  "exStateAllDone = \<lparr>version = 1, epics = [exEpicC], state_tasks = Some [exStandaloneTaskC]\<rparr>"

text \<open>The effect of \<open>applyUpdate\<close> with the input \<open>{status: 'completed'}\<close>.\<close>

definition completedAt :: "string \<Rightarrow> 'a Item_scheme \<Rightarrow> 'a Item_scheme" where
  "completedAt now item =
     item\<lparr>status := Completed, updated_at := Some now, completed_at := Some now\<rparr>"

text \<open>The selection of \<open>getNext\<close> in the specification's words. A dependency id is
  satisfied when it resolves (to the first item carrying it) to a completed item; an id
  that resolves to nothing is not satisfied. A ready item is actionable, matches the
  level and has only satisfied dependencies; a blocked one differs only in having an
  unsatisfied dependency. The sort key is the priority, followed by the negated depth
  when no level is asked for.\<close>

definition levelOf :: "Level option \<Rightarrow> Level" where
  "levelOf levelArg = (case levelArg of None \<Rightarrow> LevelAny | Some l \<Rightarrow> l)"

definition depSatisfied :: "FlatItem list \<Rightarrow> string \<Rightarrow> bool" where
  "depSatisfied flat d \<longleftrightarrow> map_option status (find (\<lambda>i. item_id i = d) flat) = Some Completed"

definition depsOf :: "FlatItem \<Rightarrow> string list" where
  "depsOf x = (case deps x of None \<Rightarrow> [] | Some ds \<Rightarrow> ds)"

definition isActionable :: "FlatItem \<Rightarrow> bool" where
  "isActionable x \<longleftrightarrow> status x = Pending \<or> status x = InProgress"

definition levelMatches :: "Level \<Rightarrow> FlatItem \<Rightarrow> bool" where
  "levelMatches level x \<longleftrightarrow>
     level = LevelAny \<or> (level = LevelEpic \<and> item_type x = EpicType)
       \<or> (level = LevelTask \<and> item_type x = TaskType)
       \<or> (level = LevelSubtask \<and> item_type x = SubtaskType)"

definition isReady :: "FlatItem list \<Rightarrow> Level \<Rightarrow> FlatItem \<Rightarrow> bool" where
  "isReady flat level x \<longleftrightarrow>
     isActionable x \<and> levelMatches level x \<and> list_all (depSatisfied flat) (depsOf x)"

definition isBlocked :: "FlatItem list \<Rightarrow> Level \<Rightarrow> FlatItem \<Rightarrow> bool" where
  "isBlocked flat level x \<longleftrightarrow>
     isActionable x \<and> levelMatches level x \<and> list_ex (\<lambda>d. \<not> depSatisfied flat d) (depsOf x)"

definition nextKey :: "Level \<Rightarrow> FlatItem \<Rightarrow> int \<times> int" where
  "nextKey level x = (priority x, if level = LevelAny then - depth x else 0)"

text \<open>A second Epic that depends on the example Epic.\<close>

definition exEpicDep :: Epic where
  "exEpicDep =
     \<lparr>item_id = ''e2'', content = ''Ship the login page'', priority = 1,
      status = Pending, created_at = ''2024-01-17T10:00:00.000Z'', updated_at = None,
      completed_at = None, implementation_description = None, item_notes = None,
      deps = Some [''e1''], tasks = []\<rparr>"

definition exStateDeps :: State where
  "exStateDeps = \<lparr>version = 1, epics = [exEpic, exEpicDep], state_tasks = Some []\<rparr>"

definition readyItems :: "State \<Rightarrow> Level option \<Rightarrow> FlatItem list" where
  "readyItems state levelArg =
     filter (isReady (flattenState state) (levelOf levelArg)) (flattenState state)"

definition blockedItems :: "State \<Rightarrow> Level option \<Rightarrow> FlatItem list" where
  "blockedItems state levelArg =
     filter (isBlocked (flattenState state) (levelOf levelArg)) (flattenState state)"

text \<open>The actionable items of the requested level, ready or not.\<close>

definition filteredItems :: "State \<Rightarrow> Level option \<Rightarrow> FlatItem list" where
  "filteredItems state levelArg =
     filter (\<lambda>x. isActionable x \<and> levelMatches (levelOf levelArg) x) (flattenState state)"

text \<open>Raw documents: a standalone Task as written by \<open>writeState\<close>, a document with only
  that Task in the top-level \<open>tasks\<close> array, and a document with two Epics of which the
  second lists the first in \<open>deps\<close>.\<close>

definition exRawTask :: json where
  "exRawTask =
     JObj [(''id'', JStr ''t2''), (''content'', JStr ''Publish the next release''),
           (''priority'', JNum 2), (''status'', JStr ''pending''),
           (''created_at'', JStr ''2024-01-16T09:00:00.000Z''), (''subtasks'', JArr [])]"

definition exRawStandalone :: json where
  "exRawStandalone =
     JObj [(''version'', JNum 1), (''epics'', JArr []), (''tasks'', JArr [exRawTask])]"

definition exRawEpic1 :: json where
  "exRawEpic1 =
     JObj [(''id'', JStr ''e1''), (''content'', JStr ''Build user authentication system''),
           (''priority'', JNum 1), (''status'', JStr ''pending''),
           (''created_at'', JStr ''2024-01-15T10:00:00.000Z''), (''tasks'', JArr [])]"

definition exRawEpic2 :: json where
  "exRawEpic2 =
     JObj [(''id'', JStr ''e2''), (''content'', JStr ''Ship the login page''),
           (''priority'', JNum 1), (''status'', JStr ''pending''),
           (''created_at'', JStr ''2024-01-17T10:00:00.000Z''),
           (''deps'', JArr [JStr ''e1'']), (''tasks'', JArr [])]"

definition exRawDeps :: json where
  "exRawDeps = JObj [(''version'', JNum 1), (''epics'', JArr [exRawEpic1, exRawEpic2])]"

text \<open>What a raw document holds: the elements of an array property, and the \<open>deps\<close> of a
  raw Epic.\<close>

definition rawArray :: "json \<Rightarrow> string \<Rightarrow> json list" where
  "rawArray doc key =
     (case doc of JObj kvs \<Rightarrow> (case map_of kvs key of Some (JArr xs) \<Rightarrow> xs | _ \<Rightarrow> [])
      | _ \<Rightarrow> [])"

definition rawProperty :: "json \<Rightarrow> string \<Rightarrow> json option" where
  "rawProperty doc key = (case doc of JObj kvs \<Rightarrow> map_of kvs key | _ \<Rightarrow> None)"

text \<open>The typed states that \<open>validateState\<close> returns for the two documents.\<close>

definition exParsedStandalone :: State where
  "exParsedStandalone = \<lparr>version = 1, epics = [], state_tasks = None\<rparr>"

definition exParsedDeps :: State where
  "exParsedDeps =
     \<lparr>version = 1,
      epics = [\<lparr>item_id = ''e1'', content = ''Build user authentication system'', priority = 1,
                status = Pending, created_at = ''2024-01-15T10:00:00.000Z'', updated_at = None,
                completed_at = None, implementation_description = None, item_notes = None,
                deps = None, tasks = []\<rparr>,
               \<lparr>item_id = ''e2'', content = ''Ship the login page'', priority = 1,
                status = Pending, created_at = ''2024-01-17T10:00:00.000Z'', updated_at = None,
                completed_at = None, implementation_description = None, item_notes = None,
                deps = None, tasks = []\<rparr>],
      state_tasks = None\<rparr>"

text \<open>Dependency chains of a scope (the Epics of a State, the Tasks of an Epic, the
  Subtasks of a Task). \<open>depsIn items i\<close> is the dependency list the scope records for the
  id \<open>i\<close>: that of the item carrying the id (the last one, should an id occur twice), and
  none for an id of no item. A chain follows these lists from id to id. The traversal that
  starts at item \<open>x\<close> revisits an id on its active stack along \<open>path\<close> when the chain starts
  in \<open>x\<close>'s own \<open>deps\<close> and its last id is \<open>x\<close>'s id or an earlier id of the chain.\<close>

definition depsIn :: "'a Item_scheme list \<Rightarrow> string \<Rightarrow> string list" where
  "depsIn items i =
     (case find (\<lambda>x. item_id x = i) (rev items) of None \<Rightarrow> [] | Some x \<Rightarrow> depsOrEmpty x)"

fun isDepPath :: "(string \<Rightarrow> string list) \<Rightarrow> string list \<Rightarrow> bool" where
  "isDepPath g [] = True"
| "isDepPath g [a] = True"
| "isDepPath g (a # b # rest) = (b \<in> set (g a) \<and> isDepPath g (b # rest))"

definition revisits :: "'a Item_scheme list \<Rightarrow> 'a Item_scheme \<Rightarrow> string list \<Rightarrow> bool" where
  "revisits items x path \<longleftrightarrow>
     path \<noteq> [] \<and> hd path \<in> set (depsOrEmpty x) \<and> isDepPath (depsIn items) path \<and>
     last path \<in> set (item_id x # butlast path)"

text \<open>Two Epics that depend on each other; the first has two Tasks that depend on each
  other, and the first of these has a Subtask that depends on itself.\<close>

definition exCycleSubtask :: Subtask where
  "exCycleSubtask = exSubtask\<lparr>item_id := ''sa'', deps := Some [''sa'']\<rparr>"

definition exCycleTaskA :: Task where
  "exCycleTaskA = exTask\<lparr>item_id := ''ta'', deps := Some [''tb''], subtasks := [exCycleSubtask]\<rparr>"

definition exCycleTaskB :: Task where
  "exCycleTaskB = exTask\<lparr>item_id := ''tb'', deps := Some [''ta''], subtasks := []\<rparr>"

definition exCycleEpicA :: Epic where
  "exCycleEpicA = exEpic\<lparr>item_id := ''ea'', deps := Some [''eb''],
                          tasks := [exCycleTaskA, exCycleTaskB]\<rparr>"

definition exCycleEpicB :: Epic where
  "exCycleEpicB = exEpic\<lparr>item_id := ''eb'', deps := Some [''ea''], tasks := []\<rparr>"

definition exCycleState :: State where
  "exCycleState = \<lparr>version = 1, epics = [exCycleEpicA, exCycleEpicB], state_tasks = Some []\<rparr>"

section \<open>Verification\<close>

subsection \<open>Lookups and single updates\<close>

lemmas ex_defs =
  exState_def exEpic_def exTask_def exSubtask_def exStandaloneTask_def exStandaloneSubtask_def


lemma findIndex_Some: "findIndex P xs = Some i \<Longrightarrow> i < length xs \<and> P (xs ! i) \<and> (\<forall>j<i. \<not> P (xs ! j))"
proof (induction xs arbitrary: i)
  case Nil then show ?case by simp
next
  case (Cons x xs)
  show ?case
  proof (cases "P x")
    case True with Cons.prems show ?thesis by simp
  next
    case False
    with Cons.prems obtain k where k: "findIndex P xs = Some k" "i = Suc k" by auto
    from Cons.IH[OF k(1)] False k(2) show ?thesis by (auto simp: less_Suc_eq_0_disj)
  qed
qed

lemma applyUpdate_updated_at: "updated_at (applyUpdate item input now) = Some now"
  by (simp add: applyUpdate_def Let_def split: option.splits)

lemma applyUpdate_completed_at:
  "completed_at (applyUpdate item input now) =
     (if in_status input = Some Completed then Some now else completed_at item)"
  by (simp add: applyUpdate_def Let_def split: option.splits)

lemma applyUpdate_item_id: "item_id (applyUpdate item input now) = item_id item"
  by (simp add: applyUpdate_def Let_def split: option.splits)

lemma applyUpdate_refreshed: "timestampsRefreshed item (applyUpdate item input now) input now"
  by (simp add: timestampsRefreshed_def applyUpdate_updated_at applyUpdate_completed_at applyUpdate_item_id)

lemma updateEpic_refreshed:
  assumes "updateEpic state epicId input now = Success s'"
  shows "\<exists>lk. findEpic state epicId = Some lk \<and> lk_index lk < length (epics s') \<and>
           timestampsRefreshed (lk_epic lk) (epics s' ! lk_index lk) input now"
proof -
  from assms obtain lk where lk: "findEpic state epicId = Some lk"
    and s': "s' = updateEpicInState state (lk_index lk) (applyUpdate (lk_epic lk) input now)"
    by (auto simp: updateEpic_def split: option.splits)
  from lk have "lk_index lk < length (epics state)"
    by (auto simp: findEpic_def split: option.splits dest: findIndex_Some)
  with s' lk show ?thesis
    by (simp add: updateEpicInState_def applyUpdate_refreshed)
qed

lemma findTask_range:
  assumes "findTask state epicId taskId = Some lk"
  shows "tl_epicIndex lk < length (epics state) \<and> tl_epic lk = epics state ! tl_epicIndex lk \<and>
         tl_taskIndex lk < length (tasks (tl_epic lk)) \<and>
         tl_task lk = tasks (tl_epic lk) ! tl_taskIndex lk"
  using assms
  by (auto simp: findTask_def findEpic_def split: option.splits dest: findIndex_Some)

lemma updateTask_refreshed:
  assumes "updateTask state epicId taskId input now = Success s'"
  shows "\<exists>lk. findTask state epicId taskId = Some lk \<and> tl_epicIndex lk < length (epics s') \<and>
           tl_taskIndex lk < length (tasks (epics s' ! tl_epicIndex lk)) \<and>
           timestampsRefreshed (tl_task lk)
             (tasks (epics s' ! tl_epicIndex lk) ! tl_taskIndex lk) input now"
proof -
  from assms obtain lk where lk: "findTask state epicId taskId = Some lk"
    and s': "s' = updateEpicInState state (tl_epicIndex lk)
                    (updateTaskInEpic (tl_epic lk) (tl_taskIndex lk)
                       (applyUpdate (tl_task lk) input now) now)"
    by (auto simp: updateTask_def Let_def split: option.splits)
  from findTask_range[OF lk] s' lk show ?thesis
    by (auto simp: updateEpicInState_def updateTaskInEpic_def applyUpdate_refreshed)
qed

lemma findSubtask_range:
  assumes "findSubtask state epicId taskId subtaskId = Some lk"
  shows "tl_epicIndex lk < length (epics state) \<and> tl_epic lk = epics state ! tl_epicIndex lk \<and>
         tl_taskIndex lk < length (tasks (tl_epic lk)) \<and>
         tl_task lk = tasks (tl_epic lk) ! tl_taskIndex lk \<and>
         sl_subtaskIndex lk < length (subtasks (tl_task lk)) \<and>
         sl_subtask lk = subtasks (tl_task lk) ! sl_subtaskIndex lk"
  using assms
  by (auto simp: findSubtask_def split: option.splits dest: findIndex_Some findTask_range)

lemma updateSubtask_refreshed:
  assumes "updateSubtask state epicId taskId subtaskId input now = Success s'"
  shows "\<exists>lk. findSubtask state epicId taskId subtaskId = Some lk \<and>
           tl_epicIndex lk < length (epics s') \<and>
           tl_taskIndex lk < length (tasks (epics s' ! tl_epicIndex lk)) \<and>
           sl_subtaskIndex lk < length (subtasks (tasks (epics s' ! tl_epicIndex lk) ! tl_taskIndex lk)) \<and>
           timestampsRefreshed (sl_subtask lk)
             (subtasks (tasks (epics s' ! tl_epicIndex lk) ! tl_taskIndex lk) ! sl_subtaskIndex lk)
             input now"
proof -
  from assms obtain lk where lk: "findSubtask state epicId taskId subtaskId = Some lk"
    and s': "s' = updateEpicInState state (tl_epicIndex lk)
                    (updateTaskInEpic (tl_epic lk) (tl_taskIndex lk)
                       (updateSubtaskInTask (tl_task lk) (sl_subtaskIndex lk)
                          (applyUpdate (sl_subtask lk) input now) now) now)"
    by (auto simp: updateSubtask_def Let_def split: option.splits)
  from findSubtask_range[OF lk] s' lk show ?thesis
    by (auto simp: updateEpicInState_def updateTaskInEpic_def updateSubtaskInTask_def
        applyUpdate_refreshed)
qed

lemma findStandaloneTask_range:
  assumes "findStandaloneTask state taskId = Some lk"
  shows "sa_index lk < length (standaloneTasks state) \<and>
         sa_task lk = standaloneTasks state ! sa_index lk"
  using assms
  by (auto simp: findStandaloneTask_def split: option.splits dest: findIndex_Some)

lemma standaloneTasks_update [simp]:
  "standaloneTasks (updateStandaloneTaskInState state i t) = (standaloneTasks state)[i := t]"
  by (simp add: updateStandaloneTaskInState_def standaloneTasks_def)

lemma updateStandaloneTask_refreshed:
  assumes "updateStandaloneTask state taskId input now = Success s'"
  shows "\<exists>lk. findStandaloneTask state taskId = Some lk \<and>
           sa_index lk < length (standaloneTasks s') \<and>
           timestampsRefreshed (sa_task lk) (standaloneTasks s' ! sa_index lk) input now"
proof -
  from assms obtain lk where lk: "findStandaloneTask state taskId = Some lk"
    and s': "s' = updateStandaloneTaskInState state (sa_index lk)
                    (applyUpdate (sa_task lk) input now)"
    by (auto simp: updateStandaloneTask_def split: option.splits)
  from findStandaloneTask_range[OF lk] s' lk show ?thesis
    by (simp add: applyUpdate_refreshed)
qed

lemma updateStandaloneSubtask_refreshed:
  assumes "updateStandaloneSubtask state taskId subtaskId input now = Success s'"
  shows "\<exists>lk k. findStandaloneTask state taskId = Some lk \<and>
           findIndex (\<lambda>s. item_id s = subtaskId) (subtasks (sa_task lk)) = Some k \<and>
           sa_index lk < length (standaloneTasks s') \<and>
           k < length (subtasks (standaloneTasks s' ! sa_index lk)) \<and>
           timestampsRefreshed (subtasks (sa_task lk) ! k)
             (subtasks (standaloneTasks s' ! sa_index lk) ! k) input now"
proof -
  from assms obtain lk k where lk: "findStandaloneTask state taskId = Some lk"
    and k: "findIndex (\<lambda>s. item_id s = subtaskId) (subtasks (sa_task lk)) = Some k"
    and s': "s' = updateStandaloneTaskInState state (sa_index lk)
                    ((sa_task lk)\<lparr>subtasks := (subtasks (sa_task lk))
                                     [k := applyUpdate (subtasks (sa_task lk) ! k) input now],
                                  updated_at := Some now\<rparr>)"
    by (auto simp: updateStandaloneSubtask_def Let_def split: option.splits)
  from findStandaloneTask_range[OF lk] findIndex_Some[OF k] s' lk k show ?thesis
    by (simp add: applyUpdate_refreshed)
qed

lemma applyUpdate_completedInput:
  "applyUpdate x completedInput now =
     x\<lparr>status := Completed, updated_at := Some now, completed_at := Some now\<rparr>"
  by (simp add: applyUpdate_def completedInput_def)

lemma findIndex_append_hit:
  "\<forall>x\<in>set pre. \<not> P x \<Longrightarrow> P y \<Longrightarrow> findIndex P (pre @ y # post) = Some (length pre)"
  by (induction pre) auto

lemma find_append_hit:
  "\<forall>x\<in>set pre. \<not> P x \<Longrightarrow> P y \<Longrightarrow> find P (pre @ y # post) = Some y"
  by (induction pre) auto

lemma findIndex_id_hit:
  "item_id y \<notin> item_id ` set pre \<Longrightarrow>
   findIndex (\<lambda>x. item_id x = item_id y) (pre @ y # post) = Some (length pre)"
  by (induction pre) auto

lemma find_id_hit:
  "item_id y \<notin> item_id ` set pre \<Longrightarrow>
   find (\<lambda>x. item_id x = item_id y) (pre @ y # post) = Some y"
  by (induction pre) auto

lemma findIndex_None_iff: "findIndex P xs = None \<longleftrightarrow> (\<forall>x\<in>set xs. \<not> P x)"
  by (induction xs) auto

lemma findEpic_at:
  assumes "epics state = pre @ E # post" "item_id E \<notin> item_id ` set pre"
  shows "findEpic state (item_id E) = Some \<lparr>lk_epic = E, lk_index = length pre\<rparr>"
proof -
  have "findIndex (\<lambda>e. item_id e = item_id E) (pre @ E # post) = Some (length pre)"
    using assms(2) by (rule findIndex_id_hit)
  then show ?thesis by (simp add: findEpic_def assms(1))
qed

lemma findTask_at:
  assumes "epics state = pre @ E # post" "item_id E \<notin> item_id ` set pre"
    and "tasks E = tpre @ T # tpost" "item_id T \<notin> item_id ` set tpre"
  shows "findTask state (item_id E) (item_id T) =
           Some \<lparr>tl_epic = E, tl_epicIndex = length pre, tl_task = T, tl_taskIndex = length tpre\<rparr>"
proof -
  have "findIndex (\<lambda>t. item_id t = item_id T) (tpre @ T # tpost) = Some (length tpre)"
    using assms(4) by (rule findIndex_id_hit)
  then show ?thesis by (simp add: findTask_def findEpic_at[OF assms(1,2)] assms(3))
qed

lemma findSubtask_at:
  assumes "epics state = pre @ E # post" "item_id E \<notin> item_id ` set pre"
    and "tasks E = tpre @ T # tpost" "item_id T \<notin> item_id ` set tpre"
    and "subtasks T = spre @ S # spost" "item_id S \<notin> item_id ` set spre"
  shows "findSubtask state (item_id E) (item_id T) (item_id S) =
           Some \<lparr>tl_epic = E, tl_epicIndex = length pre, tl_task = T, tl_taskIndex = length tpre,
                 sl_subtask = S, sl_subtaskIndex = length spre\<rparr>"
proof -
  have "findIndex (\<lambda>s. item_id s = item_id S) (spre @ S # spost) = Some (length spre)"
    using assms(6) by (rule findIndex_id_hit)
  then show ?thesis by (simp add: findSubtask_def findTask_at[OF assms(1-4)] assms(5))
qed

lemma updateEpic_at:
  assumes "epics state = pre @ E # post" "item_id E \<notin> item_id ` set pre"
  shows "updateEpic state (item_id E) input now =
           Success (state\<lparr>epics := pre @ applyUpdate E input now # post\<rparr>)"
  by (simp add: updateEpic_def findEpic_at[OF assms] updateEpicInState_def assms(1))

lemma updateTask_at:
  assumes "epics state = pre @ E # post" "item_id E \<notin> item_id ` set pre"
    and "tasks E = tpre @ T # tpost" "item_id T \<notin> item_id ` set tpre"
  shows "updateTask state (item_id E) (item_id T) input now =
           Success (state\<lparr>epics :=
             pre @ E\<lparr>tasks := tpre @ applyUpdate T input now # tpost,
                      updated_at := Some now\<rparr> # post\<rparr>)"
  by (simp add: updateTask_def findTask_at[OF assms] updateEpicInState_def updateTaskInEpic_def
      assms(1,3))

lemma updateSubtask_at:
  assumes "epics state = pre @ E # post" "item_id E \<notin> item_id ` set pre"
    and "tasks E = tpre @ T # tpost" "item_id T \<notin> item_id ` set tpre"
    and "subtasks T = spre @ S # spost" "item_id S \<notin> item_id ` set spre"
  shows "updateSubtask state (item_id E) (item_id T) (item_id S) input now =
           Success (state\<lparr>epics :=
             pre @ E\<lparr>tasks := tpre @ T\<lparr>subtasks := spre @ applyUpdate S input now # spost,
                                        updated_at := Some now\<rparr> # tpost,
                      updated_at := Some now\<rparr> # post\<rparr>)"
  by (simp add: updateSubtask_def findSubtask_at[OF assms] updateEpicInState_def
      updateTaskInEpic_def updateSubtaskInTask_def assms(1,3,5))

lemma maybeCompleteEpic_at:
  assumes "epics state = pre @ E # post" "item_id E \<notin> item_id ` set pre"
  shows "maybeCompleteEpic state (item_id E) clk =
           (if tasks E = [] \<or> \<not> list_all (\<lambda>t. status t = Completed) (tasks E)
            then Success state
            else Success (state\<lparr>epics := pre @ applyUpdate E completedInput (clk 0) # post\<rparr>))"
proof -
  have "find (\<lambda>e. item_id e = item_id E) (pre @ E # post) = Some E"
    using assms(2) by (rule find_id_hit)
  then show ?thesis
    by (simp add: maybeCompleteEpic_def assms(1) updateEpic_at[OF assms])
qed

lemma maybeCompleteTaskAndEpic_at:
  assumes "epics state = pre @ E # post" "item_id E \<notin> item_id ` set pre"
    and "tasks E = tpre @ T # tpost" "item_id T \<notin> item_id ` set tpre"
  shows "maybeCompleteTaskAndEpic state (item_id E) (item_id T) clk =
           (if subtasks T = [] \<or> \<not> list_all (\<lambda>s. status s = Completed) (subtasks T)
               \<or> status T = Completed
            then Success state
            else maybeCompleteEpic
                   (state\<lparr>epics :=
                      pre @ E\<lparr>tasks := tpre @ applyUpdate T completedInput (clk 0) # tpost,
                               updated_at := Some (clk 0)\<rparr> # post\<rparr>)
                   (item_id E) (\<lambda>k. clk (Suc k)))"
proof -
  have e: "find (\<lambda>e. item_id e = item_id E) (pre @ E # post) = Some E"
    using assms(2) by (rule find_id_hit)
  have t: "find (\<lambda>t. item_id t = item_id T) (tpre @ T # tpost) = Some T"
    using assms(4) by (rule find_id_hit)
  show ?thesis
    by (simp add: maybeCompleteTaskAndEpic_def assms(1,3) e t updateTask_at[OF assms])
qed

text \<open>Skipping the items that do not carry the identifier.\<close>

lemma findAndCompleteSubtask_None:
  "ident \<notin> item_id ` set (subtasks task) \<Longrightarrow> findAndCompleteSubtask state epic task ident clk = None"
  by (auto simp: findAndCompleteSubtask_def find_None_iff split: option.splits)

lemma findAndCompleteTask_loop_skip:
  "ident \<notin> set (concat (map taskIds tpre)) \<Longrightarrow>
   findAndCompleteTask_loop state epic (tpre @ rest) ident clk =
     findAndCompleteTask_loop state epic rest ident clk"
proof (induction tpre)
  case Nil then show ?case by simp
next
  case (Cons t tpre)
  then have "item_id t \<noteq> ident" "ident \<notin> item_id ` set (subtasks t)"
    by (auto simp: taskIds_def)
  with Cons show ?case by (simp add: findAndCompleteSubtask_None)
qed

lemma findAndCompleteTask_None:
  "ident \<notin> set (concat (map taskIds (tasks epic))) \<Longrightarrow> findAndCompleteTask state epic ident clk = None"
  using findAndCompleteTask_loop_skip[of ident "tasks epic" state epic "[]" clk]
  by (simp add: findAndCompleteTask_def)

lemma markComplete_epics_skip:
  "ident \<notin> set (concat (map epicIds pre)) \<Longrightarrow>
   markComplete_epics state (pre @ rest) ident clk = markComplete_epics state rest ident clk"
proof (induction pre)
  case Nil then show ?case by simp
next
  case (Cons e pre)
  then have "item_id e \<noteq> ident" "ident \<notin> set (concat (map taskIds (tasks e)))"
    by (auto simp: epicIds_def)
  with Cons show ?case by (simp add: findAndCompleteTask_None)
qed

subsection \<open>Locating the item that markComplete acts on\<close>

lemma markComplete_epic_at:
  assumes "epics state = pre @ E # post" "item_id E \<notin> set (concat (map epicIds pre))"
  shows "markComplete state (item_id E) clk =
           Success (state\<lparr>epics := pre @ applyUpdate E completedInput (clk 0) # post\<rparr>)"
proof -
  have nin: "item_id E \<notin> item_id ` set pre"
    using assms(2) by (auto simp: epicIds_def)
  have "markComplete_epics state (epics state) (item_id E) clk =
          Some (markEpicComplete state (item_id E) clk)"
    by (simp add: assms(1) markComplete_epics_skip[OF assms(2)])
  then show ?thesis
    by (simp add: markComplete_def markEpicComplete_def updateEpic_at[OF assms(1) nin])
qed

lemma markComplete_task_at:
  assumes "epics state = pre @ E # post" "tasks E = tpre @ T # tpost"
    and "item_id T \<notin> set (concat (map epicIds pre))" "item_id T \<noteq> item_id E"
    and "item_id T \<notin> set (concat (map taskIds tpre))"
  shows "markComplete state (item_id T) clk =
           completeTaskAndCascade state (item_id E) (item_id T) clk"
proof -
  have "findAndCompleteTask state E (item_id T) clk =
          Some (completeTaskAndCascade state (item_id E) (item_id T) clk)"
    by (simp add: findAndCompleteTask_def assms(2) findAndCompleteTask_loop_skip[OF assms(5)])
  then have "markComplete_epics state (epics state) (item_id T) clk =
          Some (completeTaskAndCascade state (item_id E) (item_id T) clk)"
    using assms(4) by (simp add: assms(1) markComplete_epics_skip[OF assms(3)])
  then show ?thesis by (simp add: markComplete_def)
qed

lemma markComplete_subtask_at:
  assumes "epics state = pre @ E # post" "tasks E = tpre @ T # tpost"
    and "subtasks T = spre @ S # spost"
    and "item_id S \<notin> set (concat (map epicIds pre))" "item_id S \<noteq> item_id E"
    and "item_id S \<notin> set (concat (map taskIds tpre))" "item_id S \<noteq> item_id T"
  shows "markComplete state (item_id S) clk =
           completeSubtaskAndCascade state (item_id E) (item_id T) (item_id S) clk"
proof -
  have "find (\<lambda>s. item_id s = item_id S) (subtasks T) \<noteq> None"
    by (auto simp: assms(3) find_None_iff)
  then have "findAndCompleteSubtask state E T (item_id S) clk =
          Some (completeSubtaskAndCascade state (item_id E) (item_id T) (item_id S) clk)"
    by (auto simp: findAndCompleteSubtask_def split: option.splits)
  then have "findAndCompleteTask state E (item_id S) clk =
          Some (completeSubtaskAndCascade state (item_id E) (item_id T) (item_id S) clk)"
    using assms(7)
    by (simp add: findAndCompleteTask_def assms(2) findAndCompleteTask_loop_skip[OF assms(6)])
  then have "markComplete_epics state (epics state) (item_id S) clk =
          Some (completeSubtaskAndCascade state (item_id E) (item_id T) (item_id S) clk)"
    using assms(5) by (simp add: assms(1) markComplete_epics_skip[OF assms(4)])
  then show ?thesis by (simp add: markComplete_def)
qed

text \<open>What unique identifiers give at a position of the tree.\<close>

lemma uniqueIds_epic:
  assumes "uniqueIds state" "epics state = pre @ E # post"
  shows "item_id E \<notin> set (concat (map epicIds pre))" "item_id E \<notin> item_id ` set pre"
  using assms by (auto simp: uniqueIds_def stateIds_def epicIds_def)

lemma uniqueIds_task:
  assumes "uniqueIds state" "epics state = pre @ E # post" "tasks E = tpre @ T # tpost"
  shows "item_id T \<notin> set (concat (map epicIds pre))" "item_id T \<noteq> item_id E"
    "item_id T \<notin> set (concat (map taskIds tpre))" "item_id T \<notin> item_id ` set tpre"
  using assms by (auto simp: uniqueIds_def stateIds_def epicIds_def taskIds_def)

lemma uniqueIds_subtask:
  assumes "uniqueIds state" "epics state = pre @ E # post" "tasks E = tpre @ T # tpost"
    "subtasks T = spre @ S # spost"
  shows "item_id S \<notin> set (concat (map epicIds pre))" "item_id S \<noteq> item_id E"
    "item_id S \<notin> set (concat (map taskIds tpre))" "item_id S \<noteq> item_id T"
    "item_id S \<notin> item_id ` set spre"
  using assms by (auto simp: uniqueIds_def stateIds_def epicIds_def taskIds_def)

subsection \<open>Standalone Tasks and the shape of the cascade\<close>

lemma findStandaloneTask_at:
  assumes "standaloneTasks state = pre @ T # post" "item_id T \<notin> item_id ` set pre"
  shows "findStandaloneTask state (item_id T) = Some \<lparr>sa_task = T, sa_index = length pre\<rparr>"
  by (simp add: findStandaloneTask_def assms(1) findIndex_id_hit[OF assms(2)])

lemma updateStandaloneTask_at:
  assumes "standaloneTasks state = pre @ T # post" "item_id T \<notin> item_id ` set pre"
  shows "updateStandaloneTask state (item_id T) input now =
           Success (state\<lparr>state_tasks := Some (pre @ applyUpdate T input now # post)\<rparr>)"
  by (simp add: updateStandaloneTask_def findStandaloneTask_at[OF assms]
      updateStandaloneTaskInState_def assms(1))

lemma standaloneTasks_set [simp]: "standaloneTasks (state\<lparr>state_tasks := Some ts\<rparr>) = ts"
  by (simp add: standaloneTasks_def)

lemma standaloneTasks_epics_upd [simp]:
  "standaloneTasks (state\<lparr>epics := es\<rparr>) = standaloneTasks state"
  by (simp add: standaloneTasks_def)

lemma completeStandaloneSubtaskAndCascade_at:
  assumes "standaloneTasks state = pre @ T # post" "item_id T \<notin> item_id ` set pre"
    and "subtasks T = spre @ S # spost" "item_id S \<notin> item_id ` set spre"
  shows "completeStandaloneSubtaskAndCascade state (item_id T) (item_id S) clk =
           (let T1 = T\<lparr>subtasks := spre @ applyUpdate S completedInput (clk 0) # spost,
                       updated_at := Some (clk 0)\<rparr>
            in if \<not> list_all (\<lambda>s. status s = Completed) (subtasks T1) \<or> status T = Completed
               then Success (state\<lparr>state_tasks := Some (pre @ T1 # post)\<rparr>)
               else Success (state\<lparr>state_tasks :=
                               Some (pre @ applyUpdate T1 completedInput (clk 1) # post)\<rparr>))"
proof -
  define T1 where "T1 = T\<lparr>subtasks := spre @ applyUpdate S completedInput (clk 0) # spost,
                       updated_at := Some (clk 0)\<rparr>"
  define s1 where "s1 = state\<lparr>state_tasks := Some (pre @ T1 # post)\<rparr>"
  have s1: "standaloneTasks s1 = pre @ T1 # post" "item_id T1 = item_id T"
    by (simp_all add: s1_def T1_def)
  have nin: "item_id T1 \<notin> item_id ` set pre" using assms(2) s1(2) by simp
  have f: "find (\<lambda>t. item_id t = item_id T) (pre @ T1 # post) = Some T1"
    using find_id_hit[OF nin] by (simp add: s1(2))
  have m: "maybeCompleteStandaloneTask s1 (item_id T) (\<lambda>k. clk (Suc k)) =
             (if \<not> list_all (\<lambda>s. status s = Completed) (subtasks T1) \<or> status T = Completed
              then Success s1
              else Success (s1\<lparr>state_tasks :=
                               Some (pre @ applyUpdate T1 completedInput (clk 1) # post)\<rparr>))"
    using updateStandaloneTask_at[OF s1(1) nin, of completedInput "clk 1"]
    by (simp add: maybeCompleteStandaloneTask_def s1 f) (simp add: T1_def)
  have "completeStandaloneSubtaskAndCascade state (item_id T) (item_id S) clk =
          maybeCompleteStandaloneTask s1 (item_id T) (\<lambda>k. clk (Suc k))"
    by (simp add: completeStandaloneSubtaskAndCascade_def findStandaloneTask_at[OF assms(1,2)]
        assms(3) findIndex_id_hit[OF assms(4)] updateStandaloneTaskInState_def assms(1)
        s1_def T1_def Let_def)
  then show ?thesis by (simp add: m Let_def flip: T1_def) (simp add: s1_def)
qed

lemma markComplete_epics_None:
  "ident \<notin> set (concat (map epicIds es)) \<Longrightarrow> markComplete_epics state es ident clk = None"
  using markComplete_epics_skip[of ident es state "[]" clk] by simp

lemma findAndCompleteStandaloneSubtask_None:
  "ident \<notin> item_id ` set (subtasks task) \<Longrightarrow>
   findAndCompleteStandaloneSubtask state task ident clk = None"
  by (auto simp: findAndCompleteStandaloneSubtask_def find_None_iff split: option.splits)

lemma markComplete_standalone_skip:
  "ident \<notin> set (concat (map taskIds pre)) \<Longrightarrow>
   markComplete_standalone state (pre @ rest) ident clk =
     markComplete_standalone state rest ident clk"
proof (induction pre)
  case Nil then show ?case by simp
next
  case (Cons t pre)
  then have "item_id t \<noteq> ident" "ident \<notin> item_id ` set (subtasks t)"
    by (auto simp: taskIds_def)
  with Cons show ?case by (simp add: findAndCompleteStandaloneSubtask_None)
qed

lemma markComplete_standalone_task_at:
  assumes "standaloneTasks state = pre @ T # post"
    and "item_id T \<notin> set (concat (map epicIds (epics state)))"
    and "item_id T \<notin> set (concat (map taskIds pre))"
  shows "markComplete state (item_id T) clk =
           updateStandaloneTask state (item_id T) completedInput (clk 0)"
  by (simp add: markComplete_def markComplete_epics_None[OF assms(2)] assms(1)
      markComplete_standalone_skip[OF assms(3)] completeStandaloneTask_def)

lemma markComplete_standalone_subtask_at:
  assumes "standaloneTasks state = pre @ T # post" "subtasks T = spre @ S # spost"
    and "item_id S \<notin> set (concat (map epicIds (epics state)))"
    and "item_id S \<notin> set (concat (map taskIds pre))" "item_id S \<noteq> item_id T"
  shows "markComplete state (item_id S) clk =
           completeStandaloneSubtaskAndCascade state (item_id T) (item_id S) clk"
proof -
  have "find (\<lambda>s. item_id s = item_id S) (subtasks T) \<noteq> None"
    by (auto simp: assms(2) find_None_iff)
  then have "findAndCompleteStandaloneSubtask state T (item_id S) clk =
          Some (completeStandaloneSubtaskAndCascade state (item_id T) (item_id S) clk)"
    by (auto simp: findAndCompleteStandaloneSubtask_def split: option.splits)
  then show ?thesis
    using assms(5)
    by (simp add: markComplete_def markComplete_epics_None[OF assms(3)] assms(1)
        markComplete_standalone_skip[OF assms(4)])
qed

lemma uniqueIds_standalone_task:
  assumes "uniqueIds state" "standaloneTasks state = pre @ T # post"
  shows "item_id T \<notin> set (concat (map epicIds (epics state)))"
    "item_id T \<notin> set (concat (map taskIds pre))" "item_id T \<notin> item_id ` set pre"
  using assms by (auto simp: uniqueIds_def stateIds_def taskIds_def)

lemma uniqueIds_standalone_subtask:
  assumes "uniqueIds state" "standaloneTasks state = pre @ T # post"
    "subtasks T = spre @ S # spost"
  shows "item_id S \<notin> set (concat (map epicIds (epics state)))"
    "item_id S \<notin> set (concat (map taskIds pre))" "item_id S \<noteq> item_id T"
    "item_id S \<notin> item_id ` set spre"
  using assms by (auto simp: uniqueIds_def stateIds_def taskIds_def)

text \<open>The shape of what the cascade returns.\<close>

lemma maybeCompleteEpic_shape:
  assumes "epics s = pre @ E # post" "item_id E \<notin> item_id ` set pre"
  shows "\<exists>E'. maybeCompleteEpic s (item_id E) clk = Success (s\<lparr>epics := pre @ E' # post\<rparr>) \<and>
              tasks E' = tasks E \<and> item_id E' = item_id E"
proof (cases "tasks E = [] \<or> \<not> list_all (\<lambda>t. status t = Completed) (tasks E)")
  case True
  then have "maybeCompleteEpic s (item_id E) clk = Success (s\<lparr>epics := pre @ E # post\<rparr>)"
    using maybeCompleteEpic_at[OF assms, of clk] by (simp flip: assms(1))
  then show ?thesis by blast
next
  case False
  then have "maybeCompleteEpic s (item_id E) clk =
               Success (s\<lparr>epics := pre @ applyUpdate E completedInput (clk 0) # post\<rparr>)"
    using maybeCompleteEpic_at[OF assms, of clk] by simp
  moreover have "tasks (applyUpdate E completedInput (clk 0)) = tasks E"
    "item_id (applyUpdate E completedInput (clk 0)) = item_id E"
    by (simp_all add: applyUpdate_completedInput)
  ultimately show ?thesis by blast
qed

lemma completeTaskAndCascade_shape:
  assumes "epics state = pre @ E # post" "item_id E \<notin> item_id ` set pre"
    and "tasks E = tpre @ T # tpost" "item_id T \<notin> item_id ` set tpre"
  shows "\<exists>E'. completeTaskAndCascade state (item_id E) (item_id T) clk =
                Success (state\<lparr>epics := pre @ E' # post\<rparr>) \<and>
              tasks E' = tpre @ applyUpdate T completedInput (clk 0) # tpost \<and>
              item_id E' = item_id E"
proof -
  define E1 where "E1 = E\<lparr>tasks := tpre @ applyUpdate T completedInput (clk 0) # tpost,
                       updated_at := Some (clk 0)\<rparr>"
  define s1 where "s1 = state\<lparr>epics := pre @ E1 # post\<rparr>"
  have e1: "epics s1 = pre @ E1 # post" "item_id E1 = item_id E"
    by (simp_all add: s1_def E1_def)
  have nin: "item_id E1 \<notin> item_id ` set pre" using assms(2) e1(2) by simp
  from maybeCompleteEpic_shape[OF e1(1) nin, of "\<lambda>k. clk (Suc k)"]
  obtain E' where E': "maybeCompleteEpic s1 (item_id E) (\<lambda>k. clk (Suc k)) =
      Success (s1\<lparr>epics := pre @ E' # post\<rparr>)" "tasks E' = tasks E1" "item_id E' = item_id E"
    by (auto simp: e1(2))
  have "completeTaskAndCascade state (item_id E) (item_id T) clk =
          Success (state\<lparr>epics := pre @ E' # post\<rparr>)"
    using updateTask_at[OF assms, of completedInput "clk 0"] E'(1)
    by (simp add: completeTaskAndCascade_def flip: E1_def s1_def) (simp add: s1_def)
  with E'(2,3) show ?thesis by (auto simp: E1_def)
qed

lemma completeSubtaskAndCascade_shape:
  assumes "epics state = pre @ E # post" "item_id E \<notin> item_id ` set pre"
    and "tasks E = tpre @ T # tpost" "item_id T \<notin> item_id ` set tpre"
    and "subtasks T = spre @ S # spost" "item_id S \<notin> item_id ` set spre"
  shows "\<exists>E' T'. completeSubtaskAndCascade state (item_id E) (item_id T) (item_id S) clk =
                Success (state\<lparr>epics := pre @ E' # post\<rparr>) \<and>
              tasks E' = tpre @ T' # tpost \<and> item_id E' = item_id E \<and> item_id T' = item_id T \<and>
              subtasks T' = spre @ applyUpdate S completedInput (clk 0) # spost"
proof -
  define T1 where "T1 = T\<lparr>subtasks := spre @ applyUpdate S completedInput (clk 0) # spost,
                       updated_at := Some (clk 0)\<rparr>"
  define E1 where "E1 = E\<lparr>tasks := tpre @ T1 # tpost, updated_at := Some (clk 0)\<rparr>"
  define s1 where "s1 = state\<lparr>epics := pre @ E1 # post\<rparr>"
  have e1: "epics s1 = pre @ E1 # post" "item_id E1 = item_id E"
    "tasks E1 = tpre @ T1 # tpost" "item_id T1 = item_id T"
    by (simp_all add: s1_def E1_def T1_def)
  have nin: "item_id E1 \<notin> item_id ` set pre" "item_id T1 \<notin> item_id ` set tpre"
    using assms(2,4) e1(2,4) by simp_all
  have u: "completeSubtaskAndCascade state (item_id E) (item_id T) (item_id S) clk =
             maybeCompleteTaskAndEpic s1 (item_id E) (item_id T) (\<lambda>k. clk (Suc k))"
    using updateSubtask_at[OF assms, of completedInput "clk 0"]
    by (simp add: completeSubtaskAndCascade_def flip: T1_def E1_def s1_def)
  show ?thesis
  proof (cases "subtasks T1 = [] \<or> \<not> list_all (\<lambda>s. status s = Completed) (subtasks T1)
               \<or> status T1 = Completed")
    case True
    then have "maybeCompleteTaskAndEpic s1 (item_id E) (item_id T) (\<lambda>k. clk (Suc k)) = Success s1"
      using maybeCompleteTaskAndEpic_at[OF e1(1) nin(1) e1(3) nin(2), of "\<lambda>k. clk (Suc k)"]
      by (simp add: e1(2,4))
    with u have "completeSubtaskAndCascade state (item_id E) (item_id T) (item_id S) clk =
        Success (state\<lparr>epics := pre @ E1 # post\<rparr>)" by (simp add: s1_def)
    moreover have "subtasks T1 = spre @ applyUpdate S completedInput (clk 0) # spost"
      by (simp add: T1_def)
    ultimately show ?thesis using e1(2,3,4) by blast
  next
    case False
    define T2 where "T2 = applyUpdate T1 completedInput (clk 1)"
    define E2 where "E2 = E1\<lparr>tasks := tpre @ T2 # tpost, updated_at := Some (clk 1)\<rparr>"
    define s2 where "s2 = s1\<lparr>epics := pre @ E2 # post\<rparr>"
    have e2: "epics s2 = pre @ E2 # post" "item_id E2 = item_id E"
      by (simp_all add: s2_def E2_def E1_def)
    have nin2: "item_id E2 \<notin> item_id ` set pre" using assms(2) e2(2) by simp
    from False have "maybeCompleteTaskAndEpic s1 (item_id E) (item_id T) (\<lambda>k. clk (Suc k)) =
        maybeCompleteEpic s2 (item_id E) (\<lambda>k. clk (Suc (Suc k)))"
      using maybeCompleteTaskAndEpic_at[OF e1(1) nin(1) e1(3) nin(2), of "\<lambda>k. clk (Suc k)"]
      by (simp add: e1(2,4) s2_def E2_def T2_def)
    moreover from maybeCompleteEpic_shape[OF e2(1) nin2, of "\<lambda>k. clk (Suc (Suc k))"]
    obtain E' where E': "maybeCompleteEpic s2 (item_id E) (\<lambda>k. clk (Suc (Suc k))) =
        Success (s2\<lparr>epics := pre @ E' # post\<rparr>)" "tasks E' = tasks E2" "item_id E' = item_id E"
      by (auto simp: e2(2))
    ultimately have "completeSubtaskAndCascade state (item_id E) (item_id T) (item_id S) clk =
        Success (state\<lparr>epics := pre @ E' # post\<rparr>)"
      using u by (simp add: s2_def s1_def)
    moreover have "tasks E' = tpre @ T2 # tpost" "item_id T2 = item_id T"
      "subtasks T2 = spre @ applyUpdate S completedInput (clk 0) # spost"
      using E'(2) by (simp_all add: E2_def T2_def T1_def applyUpdate_completedInput)
    ultimately show ?thesis using E'(3) by blast
  qed
qed

subsection \<open>Cycle detection\<close>

lemma find_append_case:
  "find P (xs @ ys) = (case find P xs of None \<Rightarrow> find P ys | Some x \<Rightarrow> Some x)"
  by (induction xs) auto

lemma buildDepsMap_fold:
  "map_of (foldl (\<lambda>depsMap it. AList.update (item_id it) (depsOrEmpty it) depsMap) acc items) i =
     (case find (\<lambda>x. item_id x = i) (rev items) of
        None \<Rightarrow> map_of acc i
      | Some x \<Rightarrow> Some (depsOrEmpty x))"
proof (induction items arbitrary: acc)
  case Nil then show ?case by simp
next
  case (Cons it items)
  show ?case
    by (simp add: Cons.IH find_append_case update_conv' split: option.splits)
qed

lemma depsGet_buildDepsMap: "depsGet (buildDepsMap items) = depsIn items"
  by (rule ext) (simp add: depsGet_def buildDepsMap_def buildDepsMap_fold depsIn_def
      split: option.splits)

lemma detectCycle_chain:
  "path \<noteq> [] \<Longrightarrow> hd path \<in> set ds \<Longrightarrow> isDepPath (depsGet m) path \<Longrightarrow>
   last path \<in> insert ident V \<union> set (butlast path) \<Longrightarrow> detectCycle ident ds m V"
proof (induction path arbitrary: ident ds V)
  case Nil then show ?case by simp
next
  case (Cons d rest)
  have inner: "detectCycle d (depsGet m d) m (insert ident V)"
  proof (cases rest)
    case Nil
    with Cons.prems(4) have "d \<in> insert ident V" by simp
    then show ?thesis by (subst detectCycle.simps) simp
  next
    case (Cons d2 rest')
    have "detectCycle d (depsGet m d) m (insert ident V)"
    proof (rule Cons.IH)
      show "rest \<noteq> []" using Cons by simp
      show "hd rest \<in> set (depsGet m d)" using Cons.prems(3) Cons by simp
      show "isDepPath (depsGet m) rest" using Cons.prems(3) Cons by simp
      show "last rest \<in> insert d (insert ident V) \<union> set (butlast rest)"
        using Cons.prems(4) Cons by auto
    qed
    then show ?thesis .
  qed
  from Cons.prems(2) have "d \<in> set ds" by simp
  with inner show ?case
    by (subst detectCycle.simps) (auto simp: list_ex_iff)
qed

lemma checkCycles_reports:
  assumes "x \<in> set items" "revisits items x path"
  shows "circularWarning typeLabel x \<in> set (checkCycles items typeLabel)"
proof -
  from assms(2) have p: "path \<noteq> []" "hd path \<in> set (depsOrEmpty x)"
    "isDepPath (depsIn items) path" "last path \<in> set (item_id x # butlast path)"
    by (simp_all add: revisits_def)
  from p(2) obtain ds where ds: "deps x = Some ds" "hd path \<in> set ds"
    by (cases "deps x") (auto simp: depsOrEmpty_def)
  from ds(2) have ne: "ds \<noteq> []" by auto
  have chain: "isDepPath (depsGet (buildDepsMap items)) path"
    using p(3) by (simp add: depsGet_buildDepsMap)
  have revisit: "last path \<in> insert (item_id x) {} \<union> set (butlast path)"
    using p(4) by simp
  have dc: "detectCycle (item_id x) ds (buildDepsMap items) {}"
    by (rule detectCycle_chain[OF p(1) ds(2) chain revisit])
  let ?f = "\<lambda>it. case deps it of
             None \<Rightarrow> []
           | Some ds \<Rightarrow>
               if length ds = 0 then []
               else if detectCycle (item_id it) ds (buildDepsMap items) {}
               then [circularWarning typeLabel it]
               else []"
  have fx: "?f x = [circularWarning typeLabel x]" using ds(1) ne dc by simp
  have "set (?f x) \<subseteq> set (concat (map ?f items))"
    using assms(1) by auto
  with fx have "circularWarning typeLabel x \<in> set (concat (map ?f items))" by simp
  then show ?thesis unfolding checkCycles_def Let_def .
qed

lemma warnings_lintState_epics:
  "set (checkCycles (epics state) ''Epic'') \<subseteq> set (warnings (lintState state))"
  by (auto simp: lintState_def Let_def)

lemma warnings_lintState_lintEpic:
  "E \<in> set (epics state) \<Longrightarrow> set (warnings (lintEpic E)) \<subseteq> set (warnings (lintState state))"
  by (auto simp: lintState_def Let_def)

lemma warnings_lintEpic_tasks:
  "set (checkCycles (tasks E) ''Task'') \<subseteq> set (warnings (lintEpic E))"
  by (auto simp: lintEpic_def Let_def)

lemma warnings_lintEpic_subtasks:
  "T \<in> set (tasks E) \<Longrightarrow> set (checkCycles (subtasks T) ''Subtask'') \<subseteq> set (warnings (lintEpic E))"
  by (auto simp: lintEpic_def lintTaskWarnings_def Let_def)

lemma find_distinct_id:
  "distinct (map item_id xs) \<Longrightarrow> x \<in> set xs \<Longrightarrow> find (\<lambda>y. item_id y = item_id x) xs = Some x"
  by (induction xs) (auto simp: image_iff)

lemma depsIn_distinct:
  assumes "distinct (map item_id items)" "x \<in> set items"
  shows "depsIn items (item_id x) = depsOrEmpty x"
proof -
  have "distinct (map item_id (rev items))" using assms(1) by (simp add: rev_map[symmetric])
  from find_distinct_id[OF this, of x] assms(2) show ?thesis by (simp add: depsIn_def)
qed

lemma mutual_revisits:
  assumes "distinct (map item_id items)" "A \<in> set items" "B \<in> set items"
    "item_id B \<in> set (depsOrEmpty A)" "item_id A \<in> set (depsOrEmpty B)"
  shows "revisits items A [item_id B, item_id A]"
  using assms by (simp add: revisits_def depsIn_distinct)

subsection \<open>Updates refresh the timestamps\<close>

text \<open>
  C7. Every successful update operation (\<open>updateEpic\<close>, \<open>updateTask\<close>, \<open>updateSubtask\<close>,
  \<open>updateStandaloneTask\<close>, \<open>updateStandaloneSubtask\<close>), with any partial input, leaves the
  item it looked up at the same position with \<open>updated_at\<close> set to the new timestamp;
  \<open>completed_at\<close> is set to the new timestamp when the input's status is \<open>completed\<close>, and
  for any other or absent status it keeps the value it had: it is never cleared.
\<close>

theorem update_operations_refresh_timestamps:
  "(updateEpic state epicId input now = Success s1 \<longrightarrow>
      (\<exists>lk. findEpic state epicId = Some lk \<and> lk_index lk < length (epics s1) \<and>
            timestampsRefreshed (lk_epic lk) (epics s1 ! lk_index lk) input now)) \<and>
   (updateTask state epicId taskId input now = Success s2 \<longrightarrow>
      (\<exists>lk. findTask state epicId taskId = Some lk \<and> tl_epicIndex lk < length (epics s2) \<and>
            tl_taskIndex lk < length (tasks (epics s2 ! tl_epicIndex lk)) \<and>
            timestampsRefreshed (tl_task lk)
              (tasks (epics s2 ! tl_epicIndex lk) ! tl_taskIndex lk) input now)) \<and>
   (updateSubtask state epicId taskId subtaskId input now = Success s3 \<longrightarrow>
      (\<exists>lk. findSubtask state epicId taskId subtaskId = Some lk \<and>
            tl_epicIndex lk < length (epics s3) \<and>
            tl_taskIndex lk < length (tasks (epics s3 ! tl_epicIndex lk)) \<and>
            sl_subtaskIndex lk
              < length (subtasks (tasks (epics s3 ! tl_epicIndex lk) ! tl_taskIndex lk)) \<and>
            timestampsRefreshed (sl_subtask lk)
              (subtasks (tasks (epics s3 ! tl_epicIndex lk) ! tl_taskIndex lk)
                 ! sl_subtaskIndex lk) input now)) \<and>
   (updateStandaloneTask state saTaskId input now = Success s4 \<longrightarrow>
      (\<exists>lk. findStandaloneTask state saTaskId = Some lk \<and>
            sa_index lk < length (standaloneTasks s4) \<and>
            timestampsRefreshed (sa_task lk) (standaloneTasks s4 ! sa_index lk) input now)) \<and>
   (updateStandaloneSubtask state saTaskId saSubtaskId input now = Success s5 \<longrightarrow>
      (\<exists>lk k. findStandaloneTask state saTaskId = Some lk \<and>
            findIndex (\<lambda>s. item_id s = saSubtaskId) (subtasks (sa_task lk)) = Some k \<and>
            sa_index lk < length (standaloneTasks s5) \<and>
            k < length (subtasks (standaloneTasks s5 ! sa_index lk)) \<and>
            timestampsRefreshed (subtasks (sa_task lk) ! k)
              (subtasks (standaloneTasks s5 ! sa_index lk) ! k) input now))"
proof (intro conjI impI)
  assume "updateEpic state epicId input now = Success s1"
  then show "\<exists>lk. findEpic state epicId = Some lk \<and> lk_index lk < length (epics s1) \<and>
            timestampsRefreshed (lk_epic lk) (epics s1 ! lk_index lk) input now"
    by (rule updateEpic_refreshed)
next
  assume "updateTask state epicId taskId input now = Success s2"
  then show "\<exists>lk. findTask state epicId taskId = Some lk \<and> tl_epicIndex lk < length (epics s2) \<and>
            tl_taskIndex lk < length (tasks (epics s2 ! tl_epicIndex lk)) \<and>
            timestampsRefreshed (tl_task lk)
              (tasks (epics s2 ! tl_epicIndex lk) ! tl_taskIndex lk) input now"
    by (rule updateTask_refreshed)
next
  assume "updateSubtask state epicId taskId subtaskId input now = Success s3"
  then show "\<exists>lk. findSubtask state epicId taskId subtaskId = Some lk \<and>
            tl_epicIndex lk < length (epics s3) \<and>
            tl_taskIndex lk < length (tasks (epics s3 ! tl_epicIndex lk)) \<and>
            sl_subtaskIndex lk
              < length (subtasks (tasks (epics s3 ! tl_epicIndex lk) ! tl_taskIndex lk)) \<and>
            timestampsRefreshed (sl_subtask lk)
              (subtasks (tasks (epics s3 ! tl_epicIndex lk) ! tl_taskIndex lk)
                 ! sl_subtaskIndex lk) input now"
    by (rule updateSubtask_refreshed)
next
  assume "updateStandaloneTask state saTaskId input now = Success s4"
  then show "\<exists>lk. findStandaloneTask state saTaskId = Some lk \<and>
            sa_index lk < length (standaloneTasks s4) \<and>
            timestampsRefreshed (sa_task lk) (standaloneTasks s4 ! sa_index lk) input now"
    by (rule updateStandaloneTask_refreshed)
next
  assume "updateStandaloneSubtask state saTaskId saSubtaskId input now = Success s5"
  then show "\<exists>lk k. findStandaloneTask state saTaskId = Some lk \<and>
            findIndex (\<lambda>s. item_id s = saSubtaskId) (subtasks (sa_task lk)) = Some k \<and>
            sa_index lk < length (standaloneTasks s5) \<and>
            k < length (subtasks (standaloneTasks s5 ! sa_index lk)) \<and>
            timestampsRefreshed (subtasks (sa_task lk) ! k)
              (subtasks (standaloneTasks s5 ! sa_index lk) ! k) input now"
    by (rule updateStandaloneSubtask_refreshed)
qed

theorem update_operations_refresh_timestamps_witness:
  "updateEpic exState ''e1'' completedInput ''N'' =
     Success (exState\<lparr>epics := [applyUpdate exEpic completedInput ''N'']\<rparr>) \<and>
   updateTask exState ''e1'' ''t1'' completedInput ''N'' =
     Success (exState\<lparr>epics := [exEpic\<lparr>tasks := [applyUpdate exTask completedInput ''N''],
                                        updated_at := Some ''N''\<rparr>]\<rparr>) \<and>
   updateSubtask exState ''e1'' ''t1'' ''s1'' completedInput ''N'' =
     Success (exState\<lparr>epics :=
        [exEpic\<lparr>tasks := [exTask\<lparr>subtasks := [applyUpdate exSubtask completedInput ''N''],
                                   updated_at := Some ''N''\<rparr>],
                updated_at := Some ''N''\<rparr>]\<rparr>) \<and>
   updateStandaloneTask exState ''t2'' completedInput ''N'' =
     Success (exState\<lparr>state_tasks := Some [applyUpdate exStandaloneTask completedInput ''N'']\<rparr>) \<and>
   updateStandaloneSubtask exState ''t2'' ''s2'' completedInput ''N'' =
     Success (exState\<lparr>state_tasks :=
        Some [exStandaloneTask\<lparr>subtasks := [applyUpdate exStandaloneSubtask completedInput ''N''],
                               updated_at := Some ''N''\<rparr>]\<rparr>) \<and>
   (\<exists>lk. findEpic exState ''e1'' = Some lk \<and>
      timestampsRefreshed (lk_epic lk)
        (epics (exState\<lparr>epics := [applyUpdate exEpic completedInput ''N'']\<rparr>) ! lk_index lk)
        completedInput ''N'')"
proof -
  have h1: "updateEpic exState ''e1'' completedInput ''N'' =
     Success (exState\<lparr>epics := [applyUpdate exEpic completedInput ''N'']\<rparr>)"
    by (simp add: updateEpic_def findEpic_def updateEpicInState_def ex_defs)
  have h2: "updateTask exState ''e1'' ''t1'' completedInput ''N'' =
     Success (exState\<lparr>epics := [exEpic\<lparr>tasks := [applyUpdate exTask completedInput ''N''],
                                        updated_at := Some ''N''\<rparr>]\<rparr>)"
    by (simp add: updateTask_def findTask_def findEpic_def updateEpicInState_def
        updateTaskInEpic_def ex_defs)
  have h3: "updateSubtask exState ''e1'' ''t1'' ''s1'' completedInput ''N'' =
     Success (exState\<lparr>epics :=
        [exEpic\<lparr>tasks := [exTask\<lparr>subtasks := [applyUpdate exSubtask completedInput ''N''],
                                   updated_at := Some ''N''\<rparr>],
                updated_at := Some ''N''\<rparr>]\<rparr>)"
    by (simp add: updateSubtask_def findSubtask_def findTask_def findEpic_def
        updateEpicInState_def updateTaskInEpic_def updateSubtaskInTask_def ex_defs)
  have h4: "updateStandaloneTask exState ''t2'' completedInput ''N'' =
     Success (exState\<lparr>state_tasks := Some [applyUpdate exStandaloneTask completedInput ''N'']\<rparr>)"
    by (simp add: updateStandaloneTask_def findStandaloneTask_def standaloneTasks_def
        updateStandaloneTaskInState_def ex_defs)
  have h5: "updateStandaloneSubtask exState ''t2'' ''s2'' completedInput ''N'' =
     Success (exState\<lparr>state_tasks :=
        Some [exStandaloneTask\<lparr>subtasks := [applyUpdate exStandaloneSubtask completedInput ''N''],
                               updated_at := Some ''N''\<rparr>]\<rparr>)"
    by (simp add: updateStandaloneSubtask_def findStandaloneTask_def standaloneTasks_def
        updateStandaloneTaskInState_def ex_defs)
  from update_operations_refresh_timestamps
         [of exState "''e1''" completedInput "''N''" _ "''t1''" _ "''s1''" _ "''t2''" _ "''s2''"]
       h1 h2 h3 h4 h5
  show ?thesis by blast
qed

subsection \<open>Completing an Epic leaves its descendants alone\<close>

text \<open>
  C9. \<open>markComplete\<close> applied to an Epic's id changes only that Epic's status and
  timestamps. It succeeds whatever the status of the Epic's Tasks, and the returned state
  is the input state with the Epic's \<open>status\<close>, \<open>updated_at\<close> and \<open>completed_at\<close> rewritten:
  its Tasks and Subtasks, the other Epics and the standalone Tasks are the same values
  (no downward cascade, no precondition on children).
\<close>

theorem markComplete_epic_touches_only_epic:
  assumes "uniqueIds state" and "epics state = pre @ E # post"
  shows "markComplete state (item_id E) clk =
           Success (state\<lparr>epics := pre @ E\<lparr>status := Completed, updated_at := Some (clk 0),
                                             completed_at := Some (clk 0)\<rparr> # post\<rparr>)"
  using markComplete_epic_at[OF assms(2) uniqueIds_epic(1)[OF assms]]
  by (simp add: applyUpdate_completedInput)

theorem markComplete_epic_touches_only_epic_witness:
  "uniqueIds exState \<and> epics exState = [] @ exEpic # [] \<and>
   map status (tasks exEpic) = [Pending] \<and>
   markComplete exState (item_id exEpic) exClock =
     Success (exState\<lparr>epics := [] @ exEpic\<lparr>status := Completed, updated_at := Some (exClock 0),
                                             completed_at := Some (exClock 0)\<rparr> # []\<rparr>)"
proof -
  have u: "uniqueIds exState"
    by (simp add: uniqueIds_def stateIds_def epicIds_def taskIds_def standaloneTasks_def ex_defs)
  have e: "epics exState = [] @ exEpic # []" by (simp add: exState_def)
  have t: "map status (tasks exEpic) = [Pending]"
    by (simp add: exEpic_def exTask_def)
  from markComplete_epic_touches_only_epic[OF u e] u e t show ?thesis by blast
qed

subsection \<open>Cascade from a Subtask to its Task and Epic\<close>

text \<open>
  C4, as stated, does not hold in every state: when the only Task is already
  \<open>completed\<close> while its only Subtask is not, \<open>maybeCompleteTaskAndEpic\<close> returns before
  looking at the Epic, which stays \<open>pending\<close>.
\<close>

theorem markComplete_cascade_counterexample:
  "uniqueIds exStateTaskDone \<and> epics exStateTaskDone = [exEpicTaskDone] \<and>
   tasks exEpicTaskDone = [exTaskDone] \<and> subtasks exTaskDone = [exSubtask] \<and>
   markComplete exStateTaskDone (item_id exSubtask) exClock = Success exStateTaskDoneAfter \<and>
   map status (epics exStateTaskDoneAfter) = [Pending]"
proof -
  have u: "uniqueIds exStateTaskDone"
    by (simp add: uniqueIds_def stateIds_def epicIds_def taskIds_def standaloneTasks_def
        exStateTaskDone_def exEpicTaskDone_def exTaskDone_def ex_defs)
  have e: "epics exStateTaskDone = [] @ exEpicTaskDone # []" by (simp add: exStateTaskDone_def)
  have t: "tasks exEpicTaskDone = [] @ exTaskDone # []" by (simp add: exEpicTaskDone_def)
  have s: "subtasks exTaskDone = [] @ exSubtask # []" by (simp add: exTaskDone_def exTask_def)
  have m: "markComplete exStateTaskDone (item_id exSubtask) exClock =
        completeSubtaskAndCascade exStateTaskDone (item_id exEpicTaskDone) (item_id exTaskDone)
          (item_id exSubtask) exClock"
    by (rule markComplete_subtask_at[OF e t s uniqueIds_subtask(1-4)[OF u e t s]])
  have ids: "item_id exEpicTaskDone = ''e1''" "item_id exTaskDone = ''t1''"
    "item_id exSubtask = ''s1''"
    by (simp_all add: exEpicTaskDone_def exTaskDone_def ex_defs)
  have c: "completeSubtaskAndCascade exStateTaskDone ''e1'' ''t1'' ''s1'' exClock =
        Success exStateTaskDoneAfter"
    by (simp add: completeSubtaskAndCascade_def updateSubtask_def findSubtask_def findTask_def
        findEpic_def updateEpicInState_def updateTaskInEpic_def updateSubtaskInTask_def
        maybeCompleteTaskAndEpic_def applyUpdate_completedInput
        exStateTaskDone_def exStateTaskDoneAfter_def exEpicTaskDone_def exTaskDone_def ex_defs)
  have st: "map status (epics exStateTaskDoneAfter) = [Pending]"
    by (simp add: exStateTaskDoneAfter_def exEpicTaskDone_def exEpic_def)
  from u e t s m c st ids show ?thesis by simp
qed

text \<open>
  C4 (amended). In a state with unique ids in which Epic E contains exactly one Task T,
  which contains exactly one Subtask S, and T is not yet \<open>completed\<close>, \<open>markComplete\<close> with
  S's id succeeds, and in the returned state S, T and E have status \<open>completed\<close> and
  \<open>completed_at\<close> set (to the first, second and third timestamp of the call).
\<close>

theorem markComplete_cascade:
  assumes "uniqueIds state" and "epics state = pre @ E # post"
    and "tasks E = [T]" and "subtasks T = [S]" and "status T \<noteq> Completed"
  shows "\<exists>E' T' S'.
           markComplete state (item_id S) clk = Success (state\<lparr>epics := pre @ E' # post\<rparr>) \<and>
           tasks E' = [T'] \<and> subtasks T' = [S'] \<and>
           item_id E' = item_id E \<and> item_id T' = item_id T \<and> item_id S' = item_id S \<and>
           status S' = Completed \<and> status T' = Completed \<and> status E' = Completed \<and>
           completed_at S' = Some (clk 0) \<and> completed_at T' = Some (clk 1) \<and>
           completed_at E' = Some (clk 2)"
proof -
  define S1 where "S1 = applyUpdate S completedInput (clk 0)"
  define T1 where "T1 = T\<lparr>subtasks := [S1], updated_at := Some (clk 0)\<rparr>"
  define E1 where "E1 = E\<lparr>tasks := [T1], updated_at := Some (clk 0)\<rparr>"
  define s1 where "s1 = state\<lparr>epics := pre @ E1 # post\<rparr>"
  define T2 where "T2 = applyUpdate T1 completedInput (clk 1)"
  define E2 where "E2 = E1\<lparr>tasks := [T2], updated_at := Some (clk 1)\<rparr>"
  define s2 where "s2 = s1\<lparr>epics := pre @ E2 # post\<rparr>"
  define E3 where "E3 = applyUpdate E2 completedInput (clk 2)"
  have t: "tasks E = [] @ T # []" and s: "subtasks T = [] @ S # []"
    using assms(3,4) by simp_all
  note uE = uniqueIds_epic[OF assms(1,2)]
  note uT = uniqueIds_task[OF assms(1,2) t]
  note uS = uniqueIds_subtask[OF assms(1,2) t s]
  have m: "markComplete state (item_id S) clk =
             completeSubtaskAndCascade state (item_id E) (item_id T) (item_id S) clk"
    by (rule markComplete_subtask_at[OF assms(2) t s uS(1-4)])
  have u: "updateSubtask state (item_id E) (item_id T) (item_id S) completedInput (clk 0) =
             Success s1"
    using updateSubtask_at[OF assms(2) uE(2) t uT(4) s uS(5), of completedInput "clk 0"]
    by (simp add: s1_def E1_def T1_def S1_def)
  have e1: "epics s1 = pre @ E1 # post" "item_id E1 = item_id E"
    "tasks E1 = [] @ T1 # []" "item_id T1 = item_id T"
    by (simp_all add: s1_def E1_def T1_def)
  have nin1: "item_id E1 \<notin> item_id ` set pre" "item_id T1 \<notin> item_id ` set []"
    using uE(2) e1(2) by simp_all
  have t1: "subtasks T1 \<noteq> []" "list_all (\<lambda>s. status s = Completed) (subtasks T1)"
    "status T1 \<noteq> Completed"
    using assms(5) by (simp_all add: T1_def S1_def applyUpdate_completedInput)
  have c1: "maybeCompleteTaskAndEpic s1 (item_id E) (item_id T) (\<lambda>k. clk (Suc k)) =
              maybeCompleteEpic s2 (item_id E) (\<lambda>k. clk (Suc (Suc k)))"
    using maybeCompleteTaskAndEpic_at[OF e1(1) nin1(1) e1(3) nin1(2), of "\<lambda>k. clk (Suc k)"] t1
    by (simp add: e1(2,4) s2_def E2_def T2_def)
  have e2: "epics s2 = pre @ E2 # post" "item_id E2 = item_id E"
    by (simp_all add: s2_def E2_def E1_def)
  have nin2: "item_id E2 \<notin> item_id ` set pre" using uE(2) e2(2) by simp
  have t2: "tasks E2 = [T2]" "status T2 = Completed"
    by (simp_all add: E2_def T2_def applyUpdate_completedInput)
  have c2: "maybeCompleteEpic s2 (item_id E) (\<lambda>k. clk (Suc (Suc k))) =
              Success (s2\<lparr>epics := pre @ E3 # post\<rparr>)"
    using maybeCompleteEpic_at[OF e2(1) nin2, of "\<lambda>k. clk (Suc (Suc k))"] t2
    by (simp add: e2(2) E3_def numeral_2_eq_2)
  have res: "markComplete state (item_id S) clk = Success (state\<lparr>epics := pre @ E3 # post\<rparr>)"
    by (simp add: m completeSubtaskAndCascade_def u c1 c2) (simp add: s2_def s1_def)
  have props: "tasks E3 = [T2]" "subtasks T2 = [S1]"
    "item_id E3 = item_id E" "item_id T2 = item_id T" "item_id S1 = item_id S"
    "status S1 = Completed" "status T2 = Completed" "status E3 = Completed"
    "completed_at S1 = Some (clk 0)" "completed_at T2 = Some (clk 1)"
    "completed_at E3 = Some (clk 2)"
    by (simp_all add: E3_def E2_def E1_def T2_def T1_def S1_def applyUpdate_completedInput)
  from res props show ?thesis by blast
qed

theorem markComplete_cascade_witness:
  "uniqueIds exState \<and> epics exState = [] @ exEpic # [] \<and> tasks exEpic = [exTask] \<and>
   subtasks exTask = [exSubtask] \<and> status exTask \<noteq> Completed \<and>
   (\<exists>E' T' S'.
      markComplete exState (item_id exSubtask) exClock =
        Success (exState\<lparr>epics := [] @ E' # []\<rparr>) \<and>
      tasks E' = [T'] \<and> subtasks T' = [S'] \<and>
      item_id E' = item_id exEpic \<and> item_id T' = item_id exTask \<and>
      item_id S' = item_id exSubtask \<and>
      status S' = Completed \<and> status T' = Completed \<and> status E' = Completed \<and>
      completed_at S' = Some (exClock 0) \<and> completed_at T' = Some (exClock 1) \<and>
      completed_at E' = Some (exClock 2))"
proof -
  have u: "uniqueIds exState"
    by (simp add: uniqueIds_def stateIds_def epicIds_def taskIds_def standaloneTasks_def ex_defs)
  have e: "epics exState = [] @ exEpic # []" by (simp add: exState_def)
  have t: "tasks exEpic = [exTask]" by (simp add: exEpic_def)
  have s: "subtasks exTask = [exSubtask]" by (simp add: exTask_def)
  have n: "status exTask \<noteq> Completed" by (simp add: exTask_def)
  from markComplete_cascade[OF u e t s n, of exClock] u e t s n show ?thesis by blast
qed

subsection \<open>The cascade stops at an Epic with an unfinished Task\<close>

text \<open>
  C5. In a state with unique ids in which Epic E contains Task T1 and another Task T2 that
  is not \<open>completed\<close>, and every Subtask of T1 except S is \<open>completed\<close>, \<open>markComplete\<close> with
  S's id succeeds and returns a state in which T1 has status \<open>completed\<close> and E's status
  is what it was.
\<close>

theorem markComplete_partial_cascade:
  assumes "uniqueIds state" and "epics state = pre @ E # post"
    and "tasks E = tpre @ T1 # tpost" and "subtasks T1 = spre @ S # spost"
    and "\<forall>x\<in>set (spre @ spost). status x = Completed"
    and "T2 \<in> set (tpre @ tpost)" and "status T2 \<noteq> Completed"
  shows "\<exists>E' T1' S'.
           markComplete state (item_id S) clk = Success (state\<lparr>epics := pre @ E' # post\<rparr>) \<and>
           item_id E' = item_id E \<and> status E' = status E \<and>
           tasks E' = tpre @ T1' # tpost \<and> item_id T1' = item_id T1 \<and>
           status T1' = Completed \<and>
           subtasks T1' = spre @ S' # spost \<and> item_id S' = item_id S \<and> status S' = Completed"
proof -
  define S1 where "S1 = applyUpdate S completedInput (clk 0)"
  define T1a where "T1a = T1\<lparr>subtasks := spre @ S1 # spost, updated_at := Some (clk 0)\<rparr>"
  define E1 where "E1 = E\<lparr>tasks := tpre @ T1a # tpost, updated_at := Some (clk 0)\<rparr>"
  define s1 where "s1 = state\<lparr>epics := pre @ E1 # post\<rparr>"
  define T1b where "T1b = applyUpdate T1a completedInput (clk 1)"
  define E2 where "E2 = E1\<lparr>tasks := tpre @ T1b # tpost, updated_at := Some (clk 1)\<rparr>"
  define s2 where "s2 = s1\<lparr>epics := pre @ E2 # post\<rparr>"
  note uE = uniqueIds_epic[OF assms(1,2)]
  note uT = uniqueIds_task[OF assms(1,2,3)]
  note uS = uniqueIds_subtask[OF assms(1,2,3,4)]
  have m: "markComplete state (item_id S) clk =
             completeSubtaskAndCascade state (item_id E) (item_id T1) (item_id S) clk"
    by (rule markComplete_subtask_at[OF assms(2,3,4) uS(1-4)])
  have u: "updateSubtask state (item_id E) (item_id T1) (item_id S) completedInput (clk 0) =
             Success s1"
    using updateSubtask_at[OF assms(2) uE(2) assms(3) uT(4) assms(4) uS(5), of completedInput "clk 0"]
    by (simp add: s1_def E1_def T1a_def S1_def)
  have e1: "epics s1 = pre @ E1 # post" "item_id E1 = item_id E"
    "tasks E1 = tpre @ T1a # tpost" "item_id T1a = item_id T1"
    by (simp_all add: s1_def E1_def T1a_def)
  have nin1: "item_id E1 \<notin> item_id ` set pre" "item_id T1a \<notin> item_id ` set tpre"
    using uE(2) uT(4) e1(2,4) by simp_all
  have sub1: "subtasks T1a \<noteq> []" "list_all (\<lambda>s. status s = Completed) (subtasks T1a)"
    "status T1a = status T1"
    using assms(5) by (simp_all add: T1a_def S1_def applyUpdate_completedInput list_all_iff)
  have c1: "maybeCompleteTaskAndEpic s1 (item_id E) (item_id T1) (\<lambda>k. clk (Suc k)) =
              (if status T1 = Completed then Success s1
               else maybeCompleteEpic s2 (item_id E) (\<lambda>k. clk (Suc (Suc k))))"
    using maybeCompleteTaskAndEpic_at[OF e1(1) nin1(1) e1(3) nin1(2), of "\<lambda>k. clk (Suc k)"] sub1
    by (simp add: e1(2,4) s2_def E2_def T1b_def)
  have e2: "epics s2 = pre @ E2 # post" "item_id E2 = item_id E"
    by (simp_all add: s2_def E2_def E1_def)
  have nin2: "item_id E2 \<notin> item_id ` set pre" using uE(2) e2(2) by simp
  have "\<not> list_all (\<lambda>t. status t = Completed) (tasks E2)"
    using assms(6,7) by (auto simp: E2_def list_all_iff)
  then have c2: "maybeCompleteEpic s2 (item_id E) (\<lambda>k. clk (Suc (Suc k))) = Success s2"
    using maybeCompleteEpic_at[OF e2(1) nin2, of "\<lambda>k. clk (Suc (Suc k))"]
    by (simp add: e2(2))
  have ids: "item_id S1 = item_id S" "status S1 = Completed"
    by (simp_all add: S1_def applyUpdate_completedInput)
  show ?thesis
  proof (cases "status T1 = Completed")
    case True
    then have res: "markComplete state (item_id S) clk = Success (state\<lparr>epics := pre @ E1 # post\<rparr>)"
      by (simp add: m completeSubtaskAndCascade_def u c1) (simp add: s1_def)
    have props: "item_id E1 = item_id E" "status E1 = status E" "tasks E1 = tpre @ T1a # tpost"
      "item_id T1a = item_id T1" "status T1a = Completed" "subtasks T1a = spre @ S1 # spost"
      using True by (simp_all add: E1_def T1a_def)
    from res props ids show ?thesis by blast
  next
    case False
    then have res: "markComplete state (item_id S) clk = Success (state\<lparr>epics := pre @ E2 # post\<rparr>)"
      by (simp add: m completeSubtaskAndCascade_def u c1 c2) (simp add: s2_def s1_def)
    have props: "item_id E2 = item_id E" "status E2 = status E" "tasks E2 = tpre @ T1b # tpost"
      "item_id T1b = item_id T1" "status T1b = Completed" "subtasks T1b = spre @ S1 # spost"
      by (simp_all add: E2_def E1_def T1b_def T1a_def applyUpdate_completedInput)
    from res props ids show ?thesis by blast
  qed
qed

theorem markComplete_partial_cascade_witness:
  "uniqueIds exStateTwoTasks \<and> epics exStateTwoTasks = [] @ exEpicTwoTasks # [] \<and>
   tasks exEpicTwoTasks = [] @ exTaskTwoSubtasks # [exOtherTask] \<and>
   subtasks exTaskTwoSubtasks = [exSubtaskDone] @ exSubtask # [] \<and>
   map status ([exSubtaskDone] @ []) = [Completed] \<and>
   exOtherTask \<in> set ([] @ [exOtherTask]) \<and> status exOtherTask \<noteq> Completed \<and>
   (\<exists>E' T1' S'.
      markComplete exStateTwoTasks (item_id exSubtask) exClock =
        Success (exStateTwoTasks\<lparr>epics := [] @ E' # []\<rparr>) \<and>
      item_id E' = item_id exEpicTwoTasks \<and> status E' = status exEpicTwoTasks \<and>
      tasks E' = [] @ T1' # [exOtherTask] \<and> item_id T1' = item_id exTaskTwoSubtasks \<and>
      status T1' = Completed \<and>
      subtasks T1' = [exSubtaskDone] @ S' # [] \<and> item_id S' = item_id exSubtask \<and>
      status S' = Completed)"
proof -
  have u: "uniqueIds exStateTwoTasks"
    by (simp add: uniqueIds_def stateIds_def epicIds_def taskIds_def standaloneTasks_def
        exStateTwoTasks_def exEpicTwoTasks_def exTaskTwoSubtasks_def exOtherTask_def
        exSubtaskDone_def ex_defs)
  have e: "epics exStateTwoTasks = [] @ exEpicTwoTasks # []" by (simp add: exStateTwoTasks_def)
  have t: "tasks exEpicTwoTasks = [] @ exTaskTwoSubtasks # [exOtherTask]"
    by (simp add: exEpicTwoTasks_def)
  have s: "subtasks exTaskTwoSubtasks = [exSubtaskDone] @ exSubtask # []"
    by (simp add: exTaskTwoSubtasks_def)
  have a: "\<forall>x\<in>set ([exSubtaskDone] @ []). status x = Completed"
    by (simp add: exSubtaskDone_def)
  have m: "exOtherTask \<in> set ([] @ [exOtherTask])" by simp
  have n: "status exOtherTask \<noteq> Completed" by (simp add: exOtherTask_def exTask_def)
  have a': "map status ([exSubtaskDone] @ []) = [Completed]" by (simp add: exSubtaskDone_def)
  from markComplete_partial_cascade[OF u e t s a m n, of exClock] u e t s a' m n
  show ?thesis by blast
qed

subsection \<open>Completing an item again\<close>

lemma applyUpdate_completedAt: "applyUpdate x completedInput now = completedAt now x"
  by (simp add: applyUpdate_completedInput completedAt_def)

lemma reapply_epic:
  assumes "uniqueIds state" "epics state = pre @ E # post"
  shows "markComplete state (item_id E) clk =
           Success (state\<lparr>epics := pre @ completedAt (clk 0) E # post\<rparr>)"
  using markComplete_epic_at[OF assms(2) uniqueIds_epic(1)[OF assms]]
  by (simp add: applyUpdate_completedAt)

lemma reapply_task:
  assumes "uniqueIds state" "epics state = pre @ E # post" "tasks E = tpre @ T # tpost"
  shows "\<exists>E'. markComplete state (item_id T) clk = Success (state\<lparr>epics := pre @ E' # post\<rparr>) \<and>
              tasks E' = tpre @ completedAt (clk 0) T # tpost"
proof -
  note uE = uniqueIds_epic[OF assms(1,2)]
  note uT = uniqueIds_task[OF assms]
  from completeTaskAndCascade_shape[OF assms(2) uE(2) assms(3) uT(4), of clk]
  show ?thesis
    by (auto simp: markComplete_task_at[OF assms(2,3) uT(1,2,3)] applyUpdate_completedAt)
qed

lemma reapply_subtask:
  assumes "uniqueIds state" "epics state = pre @ E # post" "tasks E = tpre @ T # tpost"
    "subtasks T = spre @ S # spost"
  shows "\<exists>E' T'. markComplete state (item_id S) clk =
                  Success (state\<lparr>epics := pre @ E' # post\<rparr>) \<and>
              tasks E' = tpre @ T' # tpost \<and>
              subtasks T' = spre @ completedAt (clk 0) S # spost"
proof -
  note uE = uniqueIds_epic[OF assms(1,2)]
  note uT = uniqueIds_task[OF assms(1,2,3)]
  note uS = uniqueIds_subtask[OF assms]
  from completeSubtaskAndCascade_shape[OF assms(2) uE(2) assms(3) uT(4) assms(4) uS(5), of clk]
  show ?thesis
    by (auto simp: markComplete_subtask_at[OF assms(2,3,4) uS(1-4)] applyUpdate_completedAt)
qed

lemma cascade_skips_completed_task:
  assumes "uniqueIds state" "epics state = pre @ E # post" "tasks E = tpre @ T # tpost"
    "subtasks T = spre @ S # spost" "status T = Completed"
  shows "markComplete state (item_id S) clk =
           Success (state\<lparr>epics :=
             pre @ E\<lparr>tasks := tpre @ T\<lparr>subtasks := spre @ completedAt (clk 0) S # spost,
                                        updated_at := Some (clk 0)\<rparr> # tpost,
                      updated_at := Some (clk 0)\<rparr> # post\<rparr>)"
proof -
  define T1 where "T1 = T\<lparr>subtasks := spre @ completedAt (clk 0) S # spost,
                       updated_at := Some (clk 0)\<rparr>"
  define E1 where "E1 = E\<lparr>tasks := tpre @ T1 # tpost, updated_at := Some (clk 0)\<rparr>"
  define s1 where "s1 = state\<lparr>epics := pre @ E1 # post\<rparr>"
  note uE = uniqueIds_epic[OF assms(1,2)]
  note uT = uniqueIds_task[OF assms(1,2,3)]
  note uS = uniqueIds_subtask[OF assms(1-4)]
  have e1: "epics s1 = pre @ E1 # post" "item_id E1 = item_id E"
    "tasks E1 = tpre @ T1 # tpost" "item_id T1 = item_id T" "status T1 = Completed"
    using assms(5) by (simp_all add: s1_def E1_def T1_def)
  have nin: "item_id E1 \<notin> item_id ` set pre" "item_id T1 \<notin> item_id ` set tpre"
    using uE(2) uT(4) e1(2,4) by simp_all
  have u: "updateSubtask state (item_id E) (item_id T) (item_id S) completedInput (clk 0) =
             Success s1"
    using updateSubtask_at[OF assms(2) uE(2) assms(3) uT(4) assms(4) uS(5), of completedInput "clk 0"]
    by (simp add: s1_def E1_def T1_def applyUpdate_completedAt)
  have c: "maybeCompleteTaskAndEpic s1 (item_id E) (item_id T) (\<lambda>k. clk (Suc k)) = Success s1"
    using maybeCompleteTaskAndEpic_at[OF e1(1) nin(1) e1(3) nin(2), of "\<lambda>k. clk (Suc k)"] e1(5)
    by (simp add: e1(2,4))
  show ?thesis
    by (simp add: markComplete_subtask_at[OF assms(2,3,4) uS(1-4)] completeSubtaskAndCascade_def
        u c) (simp add: s1_def E1_def T1_def)
qed

lemma reapply_standalone_task:
  assumes "uniqueIds state" "standaloneTasks state = pre @ T # post"
  shows "markComplete state (item_id T) clk =
           Success (state\<lparr>state_tasks := Some (pre @ completedAt (clk 0) T # post)\<rparr>)"
  using uniqueIds_standalone_task[OF assms]
  by (simp add: markComplete_standalone_task_at[OF assms(2)] updateStandaloneTask_at[OF assms(2)]
      applyUpdate_completedAt)

lemma reapply_standalone_subtask:
  assumes "uniqueIds state" "standaloneTasks state = pre @ T # post"
    "subtasks T = spre @ S # spost"
  shows "\<exists>T'. markComplete state (item_id S) clk =
                Success (state\<lparr>state_tasks := Some (pre @ T' # post)\<rparr>) \<and>
              subtasks T' = spre @ completedAt (clk 0) S # spost"
proof -
  note uT = uniqueIds_standalone_task[OF assms(1,2)]
  note uS = uniqueIds_standalone_subtask[OF assms]
  have m: "markComplete state (item_id S) clk =
             completeStandaloneSubtaskAndCascade state (item_id T) (item_id S) clk"
    by (rule markComplete_standalone_subtask_at[OF assms(2,3) uS(1,2,3)])
  show ?thesis
    unfolding m completeStandaloneSubtaskAndCascade_at[OF assms(2) uT(3) assms(3) uS(4)]
    by (auto simp: Let_def applyUpdate_completedAt completedAt_def)
qed

lemma cascade_skips_completed_standalone_task:
  assumes "uniqueIds state" "standaloneTasks state = pre @ T # post"
    "subtasks T = spre @ S # spost" "status T = Completed"
  shows "markComplete state (item_id S) clk =
           Success (state\<lparr>state_tasks :=
             Some (pre @ T\<lparr>subtasks := spre @ completedAt (clk 0) S # spost,
                            updated_at := Some (clk 0)\<rparr> # post)\<rparr>)"
proof -
  note uT = uniqueIds_standalone_task[OF assms(1,2)]
  note uS = uniqueIds_standalone_subtask[OF assms(1,2,3)]
  have m: "markComplete state (item_id S) clk =
             completeStandaloneSubtaskAndCascade state (item_id T) (item_id S) clk"
    by (rule markComplete_standalone_subtask_at[OF assms(2,3) uS(1,2,3)])
  show ?thesis
    unfolding m completeStandaloneSubtaskAndCascade_at[OF assms(2) uT(3) assms(3) uS(4)]
    using assms(4) by (simp add: Let_def applyUpdate_completedAt)
qed

text \<open>
  C10. In a state with unique ids, \<open>markComplete\<close> on an item is never a no-op, whatever
  the item's status and so also when it is already \<open>completed\<close>: it succeeds and the item
  (Epic, Task, Subtask, standalone Task or its Subtask) comes back with \<open>status\<close>
  \<open>completed\<close> and \<open>updated_at\<close> and \<open>completed_at\<close> overwritten by the new timestamp. The
  upward cascade from a Subtask skips a parent Task that is already \<open>completed\<close>: the Task
  keeps its status and \<open>completed_at\<close> (only its \<open>subtasks\<close> and \<open>updated_at\<close> change) and the
  Epic is not examined.
\<close>

theorem markComplete_reapplies_completion:
  assumes "uniqueIds state"
  shows
  "(epics state = pre @ E # post \<longrightarrow>
      markComplete state (item_id E) clk =
        Success (state\<lparr>epics := pre @ completedAt (clk 0) E # post\<rparr>)) \<and>
   (epics state = pre @ E # post \<and> tasks E = tpre @ T # tpost \<longrightarrow>
      (\<exists>E'. markComplete state (item_id T) clk = Success (state\<lparr>epics := pre @ E' # post\<rparr>) \<and>
            tasks E' = tpre @ completedAt (clk 0) T # tpost)) \<and>
   (epics state = pre @ E # post \<and> tasks E = tpre @ T # tpost \<and>
    subtasks T = spre @ S # spost \<longrightarrow>
      (\<exists>E' T'. markComplete state (item_id S) clk =
                 Success (state\<lparr>epics := pre @ E' # post\<rparr>) \<and>
               tasks E' = tpre @ T' # tpost \<and>
               subtasks T' = spre @ completedAt (clk 0) S # spost)) \<and>
   (epics state = pre @ E # post \<and> tasks E = tpre @ T # tpost \<and>
    subtasks T = spre @ S # spost \<and> status T = Completed \<longrightarrow>
      markComplete state (item_id S) clk =
        Success (state\<lparr>epics :=
          pre @ E\<lparr>tasks := tpre @ T\<lparr>subtasks := spre @ completedAt (clk 0) S # spost,
                                     updated_at := Some (clk 0)\<rparr> # tpost,
                   updated_at := Some (clk 0)\<rparr> # post\<rparr>)) \<and>
   (standaloneTasks state = apre @ A # apost \<longrightarrow>
      markComplete state (item_id A) clk =
        Success (state\<lparr>state_tasks := Some (apre @ completedAt (clk 0) A # apost)\<rparr>)) \<and>
   (standaloneTasks state = apre @ A # apost \<and> subtasks A = bpre @ B # bpost \<longrightarrow>
      (\<exists>A'. markComplete state (item_id B) clk =
               Success (state\<lparr>state_tasks := Some (apre @ A' # apost)\<rparr>) \<and>
            subtasks A' = bpre @ completedAt (clk 0) B # bpost)) \<and>
   (standaloneTasks state = apre @ A # apost \<and> subtasks A = bpre @ B # bpost \<and>
    status A = Completed \<longrightarrow>
      markComplete state (item_id B) clk =
        Success (state\<lparr>state_tasks :=
          Some (apre @ A\<lparr>subtasks := bpre @ completedAt (clk 0) B # bpost,
                         updated_at := Some (clk 0)\<rparr> # apost)\<rparr>))"
  using reapply_epic[OF assms] reapply_task[OF assms] reapply_subtask[OF assms]
    cascade_skips_completed_task[OF assms] reapply_standalone_task[OF assms]
    reapply_standalone_subtask[OF assms] cascade_skips_completed_standalone_task[OF assms]
  by (intro conjI impI; (elim conjE)?; assumption?)

theorem markComplete_reapplies_completion_witness:
  "uniqueIds exStateAllDone \<and>
   epics exStateAllDone = [] @ exEpicC # [] \<and> tasks exEpicC = [] @ exTaskC # [] \<and>
   subtasks exTaskC = [] @ exSubtaskC # [] \<and> status exTaskC = Completed \<and>
   standaloneTasks exStateAllDone = [] @ exStandaloneTaskC # [] \<and>
   subtasks exStandaloneTaskC = [] @ exStandaloneSubtaskC # [] \<and>
   status exStandaloneTaskC = Completed \<and>
   markComplete exStateAllDone (item_id exEpicC) exClock =
     Success (exStateAllDone\<lparr>epics := [] @ completedAt (exClock 0) exEpicC # []\<rparr>) \<and>
   markComplete exStateAllDone (item_id exSubtaskC) exClock =
     Success (exStateAllDone\<lparr>epics :=
       [] @ exEpicC\<lparr>tasks :=
                     [] @ exTaskC\<lparr>subtasks := [] @ completedAt (exClock 0) exSubtaskC # [],
                                  updated_at := Some (exClock 0)\<rparr> # [],
                   updated_at := Some (exClock 0)\<rparr> # []\<rparr>) \<and>
   markComplete exStateAllDone (item_id exStandaloneTaskC) exClock =
     Success (exStateAllDone\<lparr>state_tasks :=
       Some ([] @ completedAt (exClock 0) exStandaloneTaskC # [])\<rparr>) \<and>
   markComplete exStateAllDone (item_id exStandaloneSubtaskC) exClock =
     Success (exStateAllDone\<lparr>state_tasks :=
       Some ([] @ exStandaloneTaskC
                    \<lparr>subtasks := [] @ completedAt (exClock 0) exStandaloneSubtaskC # [],
                     updated_at := Some (exClock 0)\<rparr> # [])\<rparr>)"
proof -
  have u: "uniqueIds exStateAllDone"
    by (simp add: uniqueIds_def stateIds_def epicIds_def taskIds_def standaloneTasks_def
        exStateAllDone_def exEpicC_def exTaskC_def exSubtaskC_def exStandaloneTaskC_def
        exStandaloneSubtaskC_def ex_defs)
  have e: "epics exStateAllDone = [] @ exEpicC # []" by (simp add: exStateAllDone_def)
  have t: "tasks exEpicC = [] @ exTaskC # []" by (simp add: exEpicC_def)
  have s: "subtasks exTaskC = [] @ exSubtaskC # []" by (simp add: exTaskC_def)
  have c: "status exTaskC = Completed" by (simp add: exTaskC_def)
  have a: "standaloneTasks exStateAllDone = [] @ exStandaloneTaskC # []"
    by (simp add: exStateAllDone_def standaloneTasks_def)
  have b: "subtasks exStandaloneTaskC = [] @ exStandaloneSubtaskC # []"
    by (simp add: exStandaloneTaskC_def)
  have d: "status exStandaloneTaskC = Completed" by (simp add: exStandaloneTaskC_def)
  from markComplete_reapplies_completion[OF u, of "[]" exEpicC "[]" exClock "[]" exTaskC "[]"
         "[]" exSubtaskC "[]" "[]" exStandaloneTaskC "[]" "[]" exStandaloneSubtaskC "[]"]
       u e t s c a b d
  show ?thesis by blast
qed

subsection \<open>Removing a Task\<close>

lemma splice1_at [simp]: "splice1 (length pre) (pre @ x # post) = pre @ post"
  by (simp add: splice1_def)

lemma findAndRemoveSubtask_None:
  "ident \<notin> item_id ` set (subtasks task) \<Longrightarrow>
   findAndRemoveSubtask state epicIndex epic taskIndex task ident now = None"
  by (auto simp: findAndRemoveSubtask_def findIndex_None_iff split: option.splits)

lemma findAndRemoveTask_loop_skip:
  "ident \<notin> set (concat (map taskIds tpre)) \<Longrightarrow>
   findAndRemoveTask_loop state epic epicIndex (tpre @ rest) i ident now =
     findAndRemoveTask_loop state epic epicIndex rest (i + length tpre) ident now"
proof (induction tpre arbitrary: i)
  case Nil then show ?case by simp
next
  case (Cons t tpre)
  then have "item_id t \<noteq> ident" "ident \<notin> item_id ` set (subtasks t)"
    "ident \<notin> set (concat (map taskIds tpre))"
    by (auto simp: taskIds_def)
  with Cons.IH[of "Suc i"] show ?case by (simp add: findAndRemoveSubtask_None)
qed

lemma findAndRemoveTask_None:
  "ident \<notin> set (concat (map taskIds (tasks epic))) \<Longrightarrow>
   findAndRemoveTask state epic epicIndex ident now = None"
  using findAndRemoveTask_loop_skip[of ident "tasks epic" state epic epicIndex "[]" 0 now]
  by (simp add: findAndRemoveTask_def)

lemma removeItem_epics_skip:
  "ident \<notin> set (concat (map epicIds pre)) \<Longrightarrow>
   removeItem_epics state (pre @ rest) i ident now =
     removeItem_epics state rest (i + length pre) ident now"
proof (induction pre arbitrary: i)
  case Nil then show ?case by simp
next
  case (Cons e pre)
  then have "item_id e \<noteq> ident" "ident \<notin> set (concat (map taskIds (tasks e)))"
    "ident \<notin> set (concat (map epicIds pre))"
    by (auto simp: epicIds_def)
  with Cons.IH[of "Suc i"] show ?case by (simp add: findAndRemoveTask_None)
qed

text \<open>
  C8. In a state with unique ids containing Task T under Epic E, \<open>removeItem\<close> with T's id
  succeeds and returns the input state except that T (with its Subtasks) is gone from E's
  task list and E's \<open>updated_at\<close> is the new timestamp: E is still there, with its status
  and every other field, and every other Epic and the standalone Tasks are unchanged.
\<close>

theorem removeItem_task:
  assumes "uniqueIds state" and "epics state = pre @ E # post"
    and "tasks E = tpre @ T # tpost"
  shows "removeItem state (item_id T) now =
           Success (state\<lparr>epics := pre @ E\<lparr>tasks := tpre @ tpost,
                                             updated_at := Some now\<rparr> # post\<rparr>)"
proof -
  note uT = uniqueIds_task[OF assms]
  have "findAndRemoveTask state E (length pre) (item_id T) now =
          Some (removeTask state (length pre) E (length tpre) now)"
    by (simp add: findAndRemoveTask_def assms(3) findAndRemoveTask_loop_skip[OF uT(3)])
  then have "removeItem_epics state (epics state) 0 (item_id T) now =
          Some (removeTask state (length pre) E (length tpre) now)"
    using uT(2) by (simp add: assms(2) removeItem_epics_skip[OF uT(1)])
  then show ?thesis
    by (simp add: removeItem_def removeTask_def updateEpicInState_def assms(2,3))
qed

theorem removeItem_task_witness:
  "uniqueIds exState \<and> epics exState = [] @ exEpic # [] \<and> tasks exEpic = [] @ exTask # [] \<and>
   removeItem exState (item_id exTask) (exClock 0) =
     Success (exState\<lparr>epics := [] @ exEpic\<lparr>tasks := [] @ [],
                                             updated_at := Some (exClock 0)\<rparr> # []\<rparr>)"
proof -
  have u: "uniqueIds exState"
    by (simp add: uniqueIds_def stateIds_def epicIds_def taskIds_def standaloneTasks_def ex_defs)
  have e: "epics exState = [] @ exEpic # []" by (simp add: exState_def)
  have t: "tasks exEpic = [] @ exTask # []" by (simp add: exEpic_def)
  from removeItem_task[OF u e t, of "exClock 0"] u e t show ?thesis by blast
qed

subsection \<open>Selecting the next item\<close>

lemma insort_cmp_key:
  assumes "\<And>a b. cmp a b \<le> 0 \<longleftrightarrow> f a \<le> f b"
  shows "insort_cmp cmp x xs = insort_key f x xs"
  by (induction xs) (auto simp: assms)

lemma sort_cmp_key:
  assumes "\<And>a b. cmp a b \<le> 0 \<longleftrightarrow> f a \<le> f b"
  shows "sort_cmp cmp xs = sort_key f xs"
  by (induction xs) (auto simp: sort_cmp_def sort_key_def insort_cmp_key[OF assms])

lemma compareItems_key: "compareItems level a b \<le> 0 \<longleftrightarrow> nextKey level a \<le> nextKey level b"
  by (auto simp: compareItems_def nextKey_def less_eq_prod_def)

lemma sort_compareItems: "sort_cmp (compareItems level) xs = sort_key (nextKey level) xs"
  by (rule sort_cmp_key) (rule compareItems_key)

lemma areDepsComplete_spec:
  "areDepsComplete x flat \<longleftrightarrow> list_all (depSatisfied flat) (depsOf x)"
  by (auto simp: areDepsComplete_def depsOf_def depSatisfied_def list_all_iff
      split: option.splits)

lemma levelMatches_names:
  "levelMatches level x \<longleftrightarrow> level = LevelAny \<or> typeName (item_type x) = levelName level"
  by (cases level; cases "item_type x") (simp_all add: levelMatches_def typeName_def levelName_def)

lemma getNext_unfold:
  "getNext state levelArg =
     \<lparr>next_item = (case sort_key (nextKey (levelOf levelArg)) (readyItems state levelArg) of
                     [] \<Rightarrow> None | first # _ \<Rightarrow> Some first),
      queueDepth = length (readyItems state levelArg),
      blockedByDeps = int (length (filteredItems state levelArg))
                        - int (length (readyItems state levelArg))\<rparr>"
proof -
  let ?flat = "flattenState state" and ?level = "levelOf levelArg"
  let ?actionable = "filter (\<lambda>it. status it = Pending \<or> status it = InProgress) ?flat"
  let ?filtered = "if ?level = LevelAny then ?actionable
                   else filter (\<lambda>it. typeName (item_type it) = levelName ?level) ?actionable"
  have f: "?filtered = filteredItems state levelArg"
    by (auto simp: filteredItems_def isActionable_def levelMatches_names intro: filter_cong)
  have r: "filter (\<lambda>it. areDepsComplete it ?flat) (filteredItems state levelArg) =
             readyItems state levelArg"
    by (auto simp: filteredItems_def readyItems_def isReady_def areDepsComplete_spec
        intro: filter_cong)
  show ?thesis
    unfolding getNext_def Let_def levelOf_def[symmetric] f r sort_compareItems ..
qed

lemma blocked_count:
  "int (length (filteredItems state levelArg)) - int (length (readyItems state levelArg)) =
     int (length (blockedItems state levelArg))"
proof -
  let ?flat = "flattenState state" and ?level = "levelOf levelArg"
  let ?sat = "\<lambda>x. list_all (depSatisfied ?flat) (depsOf x)"
  have "isReady ?flat ?level = (\<lambda>x. (isActionable x \<and> levelMatches ?level x) \<and> ?sat x)"
    by (rule ext) (auto simp: isReady_def)
  then have r: "readyItems state levelArg = filter ?sat (filteredItems state levelArg)"
    by (simp add: filteredItems_def readyItems_def conj_commute)
  have "isBlocked ?flat ?level =
          (\<lambda>x. (isActionable x \<and> levelMatches ?level x) \<and> \<not> ?sat x)"
    by (rule ext) (auto simp: isBlocked_def list_all_iff list_ex_iff)
  then have b: "blockedItems state levelArg = filter (\<lambda>x. \<not> ?sat x) (filteredItems state levelArg)"
    by (simp add: filteredItems_def blockedItems_def conj_commute)
  show ?thesis
    using sum_length_filter_compl[of ?sat "filteredItems state levelArg"]
    by (simp add: r b)
qed

lemma sort_key_head:
  fixes f :: "'a \<Rightarrow> 'k::linorder"
  assumes "sort_key f xs = x # rest"
  shows "\<exists>before after. xs = before @ x # after \<and> (\<forall>y\<in>set before. f x < f y)
           \<and> (\<forall>y\<in>set after. f x \<le> f y)"
proof -
  have "sorted (map f (sort_key f xs))" by (rule sorted_sort_key)
  then have le: "\<forall>y\<in>set xs. f x \<le> f y"
    using assms set_sort[of f xs] by (auto simp: assms)
  have "filter (\<lambda>y. f y = f x) xs = filter (\<lambda>y. f y = f x) (sort_key f xs)"
    by (simp add: sort_key_stable)
  also have "\<dots> = x # filter (\<lambda>y. f y = f x) rest" by (simp add: assms)
  finally obtain before after where
    xs: "xs = before @ x # after" and nb: "\<forall>u\<in>set before. f u \<noteq> f x"
    by (auto simp: filter_eq_Cons_iff)
  from le xs nb have "\<forall>y\<in>set before. f x < f y" by (auto simp: less_le)
  moreover from le xs have "\<forall>y\<in>set after. f x \<le> f y" by auto
  ultimately show ?thesis using xs by blast
qed

lemma nextKey_less:
  "nextKey level x < nextKey level y \<longleftrightarrow>
     priority x < priority y \<or> (priority y = priority x \<and> level = LevelAny \<and> depth y < depth x)"
  by (auto simp: nextKey_def less_prod_def)

lemma nextKey_le:
  "nextKey level x \<le> nextKey level y \<longleftrightarrow>
     priority x < priority y \<or> (priority y = priority x \<and> (level = LevelAny \<longrightarrow> depth y \<le> depth x))"
  by (auto simp: nextKey_def less_eq_prod_def)

text \<open>
  C3. For every state and optional level, \<open>getNext\<close> returns as \<open>queueDepth\<close> the number of
  ready items (status \<open>pending\<close> or \<open>in_progress\<close>, of the requested level when one is given,
  every dependency id resolving to a completed item, an id that resolves to nothing
  never being satisfied), as \<open>blockedByDeps\<close> the number of actionable items of the level
  that have an unmet dependency, and as item the first element of the ready items sorted
  by priority ascending, then by depth descending when no level is given. The item is
  \<open>null\<close> exactly when there is no ready item. The returned item sits in the ready list
  (document order) so that everything before it is strictly worse (greater priority
  number, or equal priority and smaller depth without a level) and nothing after it is
  better: ties are broken by document order.
\<close>

theorem getNext_returns_first_ready:
  "queueDepth (getNext state levelArg) = length (readyItems state levelArg) \<and>
   blockedByDeps (getNext state levelArg) = int (length (blockedItems state levelArg)) \<and>
   (next_item (getNext state levelArg) = None \<longleftrightarrow> readyItems state levelArg = []) \<and>
   next_item (getNext state levelArg) =
     (case sort_key (nextKey (levelOf levelArg)) (readyItems state levelArg) of
        [] \<Rightarrow> None | first # _ \<Rightarrow> Some first) \<and>
   (\<forall>x. next_item (getNext state levelArg) = Some x \<longrightarrow>
      (\<exists>before after.
         readyItems state levelArg = before @ x # after \<and>
         (\<forall>y\<in>set before. priority x < priority y \<or>
            (priority y = priority x \<and> levelOf levelArg = LevelAny \<and> depth y < depth x)) \<and>
         (\<forall>y\<in>set after. priority x < priority y \<or>
            (priority y = priority x \<and> (levelOf levelArg = LevelAny \<longrightarrow> depth y \<le> depth x)))))"
proof -
  let ?ready = "readyItems state levelArg"
  let ?sorted = "sort_key (nextKey (levelOf levelArg)) ?ready"
  have q: "queueDepth (getNext state levelArg) = length ?ready"
    by (simp add: getNext_unfold)
  have b: "blockedByDeps (getNext state levelArg) = int (length (blockedItems state levelArg))"
    by (simp add: getNext_unfold blocked_count)
  have i: "next_item (getNext state levelArg) =
             (case ?sorted of [] \<Rightarrow> None | first # _ \<Rightarrow> Some first)"
    by (simp add: getNext_unfold)
  have "?sorted = [] \<longleftrightarrow> ?ready = []"
    using length_sort[of "nextKey (levelOf levelArg)" ?ready] by (metis length_0_conv)
  then have n: "next_item (getNext state levelArg) = None \<longleftrightarrow> ?ready = []"
    by (cases ?sorted) (simp_all add: i)
  have f: "\<exists>before after.
         ?ready = before @ x # after \<and>
         (\<forall>y\<in>set before. priority x < priority y \<or>
            (priority y = priority x \<and> levelOf levelArg = LevelAny \<and> depth y < depth x)) \<and>
         (\<forall>y\<in>set after. priority x < priority y \<or>
            (priority y = priority x \<and> (levelOf levelArg = LevelAny \<longrightarrow> depth y \<le> depth x)))"
    if "next_item (getNext state levelArg) = Some x" for x
  proof -
    from that obtain rest where "?sorted = x # rest"
      by (auto simp: i split: list.splits)
    from sort_key_head[OF this] show ?thesis
      by (simp add: nextKey_less nextKey_le)
  qed
  from q b n i f show ?thesis by blast
qed

theorem getNext_returns_first_ready_witness:
  "getNext exStateDeps None =
     \<lparr>next_item = Some (flattenSubtask (Some exEpic) exTask exSubtask),
      queueDepth = 3, blockedByDeps = 1\<rparr> \<and>
   length (readyItems exStateDeps None) = 3 \<and> length (blockedItems exStateDeps None) = 1 \<and>
   (\<exists>before after.
      readyItems exStateDeps None = before @ flattenSubtask (Some exEpic) exTask exSubtask # after \<and>
      (\<forall>y\<in>set before. priority (flattenSubtask (Some exEpic) exTask exSubtask) < priority y \<or>
         (priority y = priority (flattenSubtask (Some exEpic) exTask exSubtask) \<and>
          levelOf None = LevelAny \<and>
          depth y < depth (flattenSubtask (Some exEpic) exTask exSubtask))))"
proof -
  have g: "getNext exStateDeps None =
     \<lparr>next_item = Some (flattenSubtask (Some exEpic) exTask exSubtask),
      queueDepth = 3, blockedByDeps = 1\<rparr>"
    by (simp add: getNext_def flattenState_def flattenEpicTree_def flattenTaskTree_def
        flattenEpic_def flattenTask_def flattenSubtask_def areDepsComplete_def sort_cmp_def
        compareItems_def standaloneTasks_def exStateDeps_def exEpicDep_def ex_defs)
  then have n: "next_item (getNext exStateDeps None) =
      Some (flattenSubtask (Some exEpic) exTask exSubtask)"
    and q: "queueDepth (getNext exStateDeps None) = 3"
    and b: "blockedByDeps (getNext exStateDeps None) = 1"
    by simp_all
  from getNext_returns_first_ready[of exStateDeps None] g n q b show ?thesis
    by auto
qed

subsection \<open>The validator and the fields the schema does not declare\<close>

lemmas schema_defs =
  validateState_def StateSchema_def EpicSchema_def TaskSchema_def SubtaskSchema_def
  z_array_default_def z_array_optional_def z_array_def z_string_def z_string_min_def
  z_datetime_def z_datetime_optional_def PrioritySchema_def StatusSchema_default_def
  StatusSchema_def MIN_DESCRIPTION_LENGTH_def isDatetime_def isDigits_def

text \<open>What the validator returns never has standalone tasks, dependencies or an
  implementation description.\<close>

lemma those_map_Some:
  "those (map f xs) = Some ys \<Longrightarrow> length ys = length xs \<and> (\<forall>i<length xs. f (xs ! i) = Some (ys ! i))"
proof (induction xs arbitrary: ys)
  case Nil then show ?case by simp
next
  case (Cons x xs)
  then show ?case
    by (auto split: option.splits simp: nth_Cons split: nat.splits)
qed

lemma EpicSchema_deps: "EpicSchema v = Some e \<Longrightarrow> deps e = None"
  by (auto simp: EpicSchema_def split: option.splits json.splits bind_splits)

lemma validateState_strips:
  assumes "validateState raw = Valid st"
  shows "state_tasks st = None \<and> (\<forall>e\<in>set (epics st). deps e = None)"
proof -
  from assms obtain kvs es where raw: "raw = JObj kvs"
    and es: "z_array_default EpicSchema (map_of kvs ''epics'') = Some es"
    and st: "st = \<lparr>version = 1, epics = es, state_tasks = None\<rparr>"
    by (auto simp: validateState_def StateSchema_def split: option.splits json.splits
        bind_splits if_splits)
  have "\<forall>e\<in>set es. deps e = None"
  proof (cases "map_of kvs ''epics''")
    case None
    with es show ?thesis by (simp add: z_array_default_def)
  next
    case (Some x)
    with es obtain xs where "those (map (\<lambda>x. EpicSchema (Some x)) xs) = Some es"
      by (auto simp: z_array_default_def z_array_def split: json.splits)
    from those_map_Some[OF this]
    have len: "length es = length xs"
      and nth: "\<And>i. i < length xs \<Longrightarrow> EpicSchema (Some (xs ! i)) = Some (es ! i)"
      by simp_all
    show ?thesis
    proof
      fix e assume "e \<in> set es"
      then obtain i where "i < length es" "e = es ! i" by (auto simp: in_set_conv_nth)
      with len nth[of i] show "deps e = None" by (simp add: EpicSchema_deps)
    qed
  qed
  with st show ?thesis by simp
qed

text \<open>The operations keep what the schema drops: \<open>addEpic\<close> stores the \<open>deps\<close> of its input,
  and \<open>addTask\<close> without an Epic appends to the top-level \<open>tasks\<close>.\<close>

lemma addEpic_stores_deps:
  "addEpic state input newId now = Success (s', e) \<Longrightarrow>
   deps e = ce_deps input \<and> epics s' = epics state @ [e]"
  by (auto simp: addEpic_def Let_def)

lemma addTask_standalone:
  "ct_epicId input = None \<Longrightarrow> addTask state input newId now = Success (s', t) \<Longrightarrow>
   standaloneTasks s' = standaloneTasks state @ [t]"
  by (auto simp: addTask_def Let_def standaloneTasks_def)

text \<open>The size of the flattened list, and its partition by item type.\<close>

lemma length_flattenTaskTree: "length (flattenTaskTree e t) = 1 + length (subtasks t)"
  by (simp add: flattenTaskTree_def)

lemma length_flattenEpicTree:
  "length (flattenEpicTree e) = 1 + (\<Sum>t\<leftarrow>tasks e. 1 + length (subtasks t))"
  by (simp add: flattenEpicTree_def length_concat comp_def length_flattenTaskTree)

lemma length_flattenState:
  "length (flattenState st) =
     (\<Sum>e\<leftarrow>epics st. 1 + (\<Sum>t\<leftarrow>tasks e. 1 + length (subtasks t)))
     + (\<Sum>t\<leftarrow>standaloneTasks st. 1 + length (subtasks t))"
  by (simp add: flattenState_def length_concat comp_def length_flattenTaskTree
      length_flattenEpicTree)

lemma flat_types_partition:
  "length (filter (\<lambda>x. item_type x = EpicType) xs)
   + length (filter (\<lambda>x. item_type x = TaskType) xs)
   + length (filter (\<lambda>x. item_type x = SubtaskType) xs) = length (xs :: FlatItem list)"
proof (induction xs)
  case Nil then show ?case by simp
next
  case (Cons x xs)
  then show ?case by (cases "item_type x") simp_all
qed

text \<open>
  C1 asks that for every raw document accepted by \<open>validateState\<close>, \<open>flattenState\<close> of the
  returned state has one FlatItem per Epic, per Task (nested or in the top-level
  standalone \<open>tasks\<close> array) and per Subtask of the original document. The code does not do
  that: \<open>StateSchema\<close> has no \<open>tasks\<close> key, so a document whose only item is a well-formed
  standalone Task is accepted and comes back without it, and the flattened list is empty.
  The rest of the core keeps such Tasks (\<open>addTask_standalone\<close>, \<open>flattenState\<close>,
  \<open>markComplete\<close>, \<open>removeItem\<close>) and storage/file.ts reads every state through
  \<open>validateState\<close>. For the state that is returned the count itself is right
  (\<open>length_flattenState\<close>, \<open>flat_types_partition\<close>).
\<close>

theorem validateState_drops_standalone_tasks:
  "rawArray exRawStandalone ''tasks'' = [exRawTask] \<and>
   TaskSchema (Some exRawTask) = Some (exStandaloneTask\<lparr>subtasks := []\<rparr>) \<and>
   validateState exRawStandalone = Valid exParsedStandalone \<and>
   flattenState exParsedStandalone = []"
proof -
  have a: "rawArray exRawStandalone ''tasks'' = [exRawTask]"
    by (simp add: rawArray_def exRawStandalone_def)
  have b: "TaskSchema (Some exRawTask) = Some (exStandaloneTask\<lparr>subtasks := []\<rparr>)"
    by (simp add: schema_defs exRawTask_def exStandaloneTask_def)
  have c: "validateState exRawStandalone = Valid exParsedStandalone"
    by (simp add: validateState_def StateSchema_def z_array_default_def z_array_def
        exRawStandalone_def exParsedStandalone_def)
  have d: "flattenState exParsedStandalone = []"
    by (simp add: flattenState_def standaloneTasks_def exParsedStandalone_def)
  from a b c d show ?thesis by simp
qed

text \<open>
  C2 asks that a document in which an Epic lists other Epic ids in \<open>deps\<close> is accepted
  with that field preserved. The code does not do that: \<open>EpicSchema\<close> has no \<open>deps\<close> key, so
  the document is accepted and the Epic comes back without its \<open>deps\<close>
  (\<open>validateState_strips\<close>), although \<open>addEpic\<close> and \<open>applyUpdate\<close> store the field and
  \<open>getNext\<close> and \<open>lintState\<close> read it.
\<close>

theorem validateState_drops_deps:
  "rawProperty exRawEpic2 ''deps'' = Some (JArr [JStr ''e1'']) \<and>
   validateState exRawDeps = Valid exParsedDeps \<and>
   map item_id (epics exParsedDeps) = [''e1'', ''e2''] \<and>
   map deps (epics exParsedDeps) = [None, None]"
proof -
  have a: "rawProperty exRawEpic2 ''deps'' = Some (JArr [JStr ''e1''])"
    by (simp add: rawProperty_def exRawEpic2_def)
  have e1: "EpicSchema (Some exRawEpic1) = Some (epics exParsedDeps ! 0)"
    by (simp add: schema_defs exRawEpic1_def exParsedDeps_def)
  have e2: "EpicSchema (Some exRawEpic2) = Some (epics exParsedDeps ! 1)"
    by (simp add: schema_defs exRawEpic2_def exParsedDeps_def)
  have c: "validateState exRawDeps = Valid exParsedDeps"
    by (simp add: validateState_def StateSchema_def z_array_default_def z_array_def
        exRawDeps_def e1 e2) (simp add: exParsedDeps_def)
  have d: "map item_id (epics exParsedDeps) = [''e1'', ''e2'']"
    "map deps (epics exParsedDeps) = [None, None]"
    by (simp_all add: exParsedDeps_def)
  from a c d show ?thesis by simp
qed

text \<open>
  C6. In every state whose Epic ids are distinct and in which Epic A depends on Epic B and
  B on A, the warnings of \<open>lintState\<close> contain the circular-dependency warning of A and
  that of B. In general an item is reported with a circular-dependency warning whenever
  a chain of dependency ids that starts in its own \<open>deps\<close> comes back to the item's id or
  to an earlier id of the chain, that is, whenever the depth-first traversal started at
  the item revisits an id of its active stack. This holds in each scope that is linted:
  the Epics of the state, the Tasks of an Epic and the Subtasks of a Task of an Epic.
\<close>

theorem lintState_reports_circular_dependencies:
  "(distinct (map item_id (epics state)) \<and> A \<in> set (epics state) \<and> B \<in> set (epics state) \<and>
    item_id B \<in> set (depsOrEmpty A) \<and> item_id A \<in> set (depsOrEmpty B) \<longrightarrow>
      circularWarning ''Epic'' A \<in> set (warnings (lintState state)) \<and>
      circularWarning ''Epic'' B \<in> set (warnings (lintState state))) \<and>
   (X \<in> set (epics state) \<and> revisits (epics state) X path \<longrightarrow>
      circularWarning ''Epic'' X \<in> set (warnings (lintState state))) \<and>
   (E \<in> set (epics state) \<and> T \<in> set (tasks E) \<and> revisits (tasks E) T tpath \<longrightarrow>
      circularWarning ''Task'' T \<in> set (warnings (lintState state))) \<and>
   (E' \<in> set (epics state) \<and> T' \<in> set (tasks E') \<and> S \<in> set (subtasks T') \<and>
    revisits (subtasks T') S spath \<longrightarrow>
      circularWarning ''Subtask'' S \<in> set (warnings (lintState state)))"
proof (intro conjI impI; elim conjE)
  assume d: "distinct (map item_id (epics state))"
    and a: "A \<in> set (epics state)" and b: "B \<in> set (epics state)"
    and ab: "item_id B \<in> set (depsOrEmpty A)" and ba: "item_id A \<in> set (depsOrEmpty B)"
  from checkCycles_reports[OF a mutual_revisits[OF d a b ab ba], of "''Epic''"]
  show "circularWarning ''Epic'' A \<in> set (warnings (lintState state))"
    using warnings_lintState_epics[of state] by blast
  from checkCycles_reports[OF b mutual_revisits[OF d b a ba ab], of "''Epic''"]
  show "circularWarning ''Epic'' B \<in> set (warnings (lintState state))"
    using warnings_lintState_epics[of state] by blast
next
  assume "X \<in> set (epics state)" "revisits (epics state) X path"
  from checkCycles_reports[OF this, of "''Epic''"]
  show "circularWarning ''Epic'' X \<in> set (warnings (lintState state))"
    using warnings_lintState_epics[of state] by blast
next
  assume e: "E \<in> set (epics state)" and t: "T \<in> set (tasks E)" "revisits (tasks E) T tpath"
  from checkCycles_reports[OF t, of "''Task''"]
  show "circularWarning ''Task'' T \<in> set (warnings (lintState state))"
    using warnings_lintEpic_tasks[of E] warnings_lintState_lintEpic[OF e] by blast
next
  assume e: "E' \<in> set (epics state)" and t: "T' \<in> set (tasks E')"
    and s: "S \<in> set (subtasks T')" "revisits (subtasks T') S spath"
  from checkCycles_reports[OF s, of "''Subtask''"]
  show "circularWarning ''Subtask'' S \<in> set (warnings (lintState state))"
    using warnings_lintEpic_subtasks[OF t] warnings_lintState_lintEpic[OF e] by blast
qed

theorem lintState_reports_circular_dependencies_witness:
  "distinct (map item_id (epics exCycleState)) \<and>
   exCycleEpicA \<in> set (epics exCycleState) \<and> exCycleEpicB \<in> set (epics exCycleState) \<and>
   item_id exCycleEpicB \<in> set (depsOrEmpty exCycleEpicA) \<and>
   item_id exCycleEpicA \<in> set (depsOrEmpty exCycleEpicB) \<and>
   revisits (epics exCycleState) exCycleEpicA [''eb'', ''ea''] \<and>
   exCycleTaskA \<in> set (tasks exCycleEpicA) \<and>
   revisits (tasks exCycleEpicA) exCycleTaskA [''tb'', ''ta''] \<and>
   exCycleSubtask \<in> set (subtasks exCycleTaskA) \<and>
   revisits (subtasks exCycleTaskA) exCycleSubtask [''sa''] \<and>
   circularWarning ''Epic'' exCycleEpicA \<in> set (warnings (lintState exCycleState)) \<and>
   circularWarning ''Epic'' exCycleEpicB \<in> set (warnings (lintState exCycleState)) \<and>
   circularWarning ''Task'' exCycleTaskA \<in> set (warnings (lintState exCycleState)) \<and>
   circularWarning ''Subtask'' exCycleSubtask \<in> set (warnings (lintState exCycleState))"
proof -
  note defs = exCycleState_def exCycleEpicA_def exCycleEpicB_def exCycleTaskA_def
    exCycleTaskB_def exCycleSubtask_def ex_defs
  have d: "distinct (map item_id (epics exCycleState))" by (simp add: defs)
  have a: "exCycleEpicA \<in> set (epics exCycleState)" by (simp add: exCycleState_def)
  have b: "exCycleEpicB \<in> set (epics exCycleState)" by (simp add: exCycleState_def)
  have ab: "item_id exCycleEpicB \<in> set (depsOrEmpty exCycleEpicA)"
    by (simp add: depsOrEmpty_def exCycleEpicA_def exCycleEpicB_def)
  have ba: "item_id exCycleEpicA \<in> set (depsOrEmpty exCycleEpicB)"
    by (simp add: depsOrEmpty_def exCycleEpicA_def exCycleEpicB_def)
  have r1: "revisits (epics exCycleState) exCycleEpicA [''eb'', ''ea'']"
    by (simp add: revisits_def depsIn_def depsOrEmpty_def exCycleState_def exCycleEpicA_def
        exCycleEpicB_def)
  have t: "exCycleTaskA \<in> set (tasks exCycleEpicA)" by (simp add: exCycleEpicA_def)
  have r2: "revisits (tasks exCycleEpicA) exCycleTaskA [''tb'', ''ta'']"
    by (simp add: revisits_def depsIn_def depsOrEmpty_def exCycleEpicA_def exCycleTaskA_def
        exCycleTaskB_def)
  have s: "exCycleSubtask \<in> set (subtasks exCycleTaskA)" by (simp add: exCycleTaskA_def)
  have r3: "revisits (subtasks exCycleTaskA) exCycleSubtask [''sa'']"
    by (simp add: revisits_def depsIn_def depsOrEmpty_def exCycleTaskA_def exCycleSubtask_def)
  from lintState_reports_circular_dependencies
         [of exCycleState exCycleEpicA exCycleEpicB exCycleEpicA "[''eb'', ''ea'']"
             exCycleEpicA exCycleTaskA "[''tb'', ''ta'']"
             exCycleEpicA exCycleTaskA exCycleSubtask "[''sa'']"]
       d a b ab ba r1 t r2 s r3
  show ?thesis by blast
qed

end
